theory Spec2Isabelle
  imports Complex_Main "HOL-Library.Log_Nat"
begin

section \<open>Values\<close>

text \<open>
  The server (\<^verbatim>\<open>src/server/server.js\<close>) keeps two collections, products and users, each
  in one JSON file. Every handler reads the whole file, works on the value that
  \<^verbatim>\<open>JSON.parse\<close> gives for it, and writes the whole collection back.

  A value is one of the six JSON kinds. An object is a partial map from property names to
  values: the order in which properties are enumerated is not part of the model. A number is
  the rational it denotes, and the arithmetic of the handlers rounds its result to the nearest
  double (\<open>round_double\<close> below). Strings are sequences of 8-bit characters (code units up
  to 255).
\<close>

datatype json =
    JNull
  | JBool bool
  | JNum rat
  | JStr string
  | JArr "json list"
  | JObj "string \<Rightarrow> json option"

type_synonym props = "string \<Rightarrow> json option"

text \<open>
  A number as a running handler holds it: besides the finite values a JSON text can denote,
  \<^verbatim>\<open>parseInt\<close> and \<^verbatim>\<open>Math.max\<close> produce \<^verbatim>\<open>NaN\<close> and the infinities.
\<close>

datatype jsnumber = Finite rat | NaN | PosInfinity | NegInfinity

text \<open>What a handler can throw. Express answers a thrown error with status 500.\<close>

datatype error = TypeError | SyntaxError | FsError | RangeError

definition ebind :: "error + 'a \<Rightarrow> ('a \<Rightarrow> error + 'b) \<Rightarrow> error + 'b" where
  "ebind m f = (case m of Inl e \<Rightarrow> Inl e | Inr v \<Rightarrow> f v)"

text \<open>\<^verbatim>\<open>try { body } catch (error) { handler }\<close>\<close>

definition try_catch :: "error + 'a \<Rightarrow> (error \<Rightarrow> error + 'a) \<Rightarrow> error + 'a" where
  "try_catch body handler = (case body of Inl e \<Rightarrow> handler e | Inr v \<Rightarrow> Inr v)"

section \<open>Built-ins of the language that the handlers call\<close>

subsection \<open>Rounding to a double\<close>

text \<open>
  The result of an arithmetic operation is the double nearest to the exact result, the one
  with the even significand when two are equally near, and an infinity from \<open>2 ^ 1024\<close> on.
  \<open>binade a\<close> is the exponent \<open>e\<close> with \<open>2 ^ e \<le> a < 2 ^ (e + 1)\<close>; the doubles of that
  binade are the multiples of \<open>2 ^ (e - 52)\<close>, and below \<open>2 ^ - 1022\<close> those of
  \<open>2 ^ - 1074\<close>. The sign of a zero is not kept.
\<close>

definition round_half_even :: "rat \<Rightarrow> int" where
  "round_half_even x =
     (let f = \<lfloor>x\<rfloor>; d = x - of_int f in
      if d < 1 / 2 then f
      else if 1 / 2 < d then f + 1
      else if even f then f else f + 1)"

definition binade :: "rat \<Rightarrow> int" where
  "binade a = (if 1 \<le> a then bitlen \<lfloor>a\<rfloor> - 1 else - bitlen (\<lceil>1 / a\<rceil> - 1))"

definition round_double :: "rat \<Rightarrow> jsnumber" where
  "round_double q =
     (if q = 0 then Finite 0
      else
        let a = \<bar>q\<bar>;
            e = max (binade a) (- 1022);
            ulp = 2 powi (e - 52);
            r = of_int (round_half_even (a / ulp)) * ulp
        in if 2 ^ 1024 \<le> r then (if 0 < q then PosInfinity else NegInfinity)
           else Finite (if 0 < q then r else - r))"

subsection \<open>\<^verbatim>\<open>parseInt(string)\<close> without a radix\<close>

text \<open>
  ECMAScript: skip leading white space, read an optional sign, switch to radix 16 after a
  \<^verbatim>\<open>0x\<close> or \<^verbatim>\<open>0X\<close> prefix, take the longest run of digits of the radix, and answer
  \<^verbatim>\<open>NaN\<close> when that run is empty; otherwise answer the double nearest to the integer
  the run denotes, with the sign. (ECMAScript lets an engine replace the decimal digits after
  the twentieth significant one by zeros before rounding; the model rounds the exact
  integer.) Of the white space characters, TAB, LF, VT, FF, CR, SP and NBSP lie in the 8-bit
  range.
\<close>

definition is_white_space :: "char \<Rightarrow> bool" where
  "is_white_space c = ((of_char c :: nat) \<in> {9, 10, 11, 12, 13, 32, 160})"

definition digit_of :: "char \<Rightarrow> nat option" where
  "digit_of c =
     (let n = (of_char c :: nat) in
      if 48 \<le> n \<and> n \<le> 57 then Some (n - 48)
      else if 97 \<le> n \<and> n \<le> 122 then Some (n - 87)
      else if 65 \<le> n \<and> n \<le> 90 then Some (n - 55)
      else None)"

definition radix_digit :: "nat \<Rightarrow> char \<Rightarrow> bool" where
  "radix_digit R c = (case digit_of c of Some d \<Rightarrow> d < R | None \<Rightarrow> False)"

fun digits_value :: "nat \<Rightarrow> nat \<Rightarrow> string \<Rightarrow> nat" where
  "digits_value R acc [] = acc"
| "digits_value R acc (c # cs) =
     digits_value R (acc * R + (case digit_of c of Some d \<Rightarrow> d | None \<Rightarrow> 0)) cs"

definition parseInt :: "string \<Rightarrow> jsnumber" where
  "parseInt inputString =
     (let S = dropWhile is_white_space inputString;
          sign = (if S \<noteq> [] \<and> hd S = CHR ''-'' then - 1 else (1 :: int));
          S1 = (if S \<noteq> [] \<and> (hd S = CHR ''+'' \<or> hd S = CHR ''-'') then tl S else S);
          hex = (2 \<le> length S1 \<and> (take 2 S1 = ''0x'' \<or> take 2 S1 = ''0X''));
          R = (if hex then 16 else 10);
          S2 = (if hex then drop 2 S1 else S1);
          Z = takeWhile (radix_digit R) S2
      in if Z = [] then NaN else round_double (of_int (sign * int (digits_value R 0 Z))))"

subsection \<open>Property access, strict equality, truthiness\<close>

text \<open>
  \<^verbatim>\<open>p.id\<close>: reading a property of \<^verbatim>\<open>null\<close> throws a TypeError; an object answers its
  own property or \<^verbatim>\<open>undefined\<close> (here \<open>None\<close>); a value of any other JSON kind has no
  property of a name that is not \<^verbatim>\<open>length\<close> or an index, so it answers \<^verbatim>\<open>undefined\<close>.
\<close>

fun prop_id :: "json \<Rightarrow> error + json option" where
  "prop_id JNull = Inl TypeError"
| "prop_id (JObj m) = Inr (m ''id'')"
| "prop_id _ = Inr None"

text \<open>\<^verbatim>\<open>v === n\<close> for a number \<open>n\<close>: true only for a number of the same value.\<close>

fun strict_eq_number :: "json option \<Rightarrow> jsnumber \<Rightarrow> bool" where
  "strict_eq_number (Some (JNum q)) (Finite r) = (q = r)"
| "strict_eq_number _ _ = False"

text \<open>\<^verbatim>\<open>v === s\<close> for a string \<open>s\<close>.\<close>

fun strict_eq_string :: "json option \<Rightarrow> string \<Rightarrow> bool" where
  "strict_eq_string (Some (JStr t)) s = (t = s)"
| "strict_eq_string _ _ = False"

text \<open>\<^verbatim>\<open>if (v)\<close>\<close>

fun truthy :: "json option \<Rightarrow> bool" where
  "truthy None = False"
| "truthy (Some JNull) = False"
| "truthy (Some (JBool b)) = b"
| "truthy (Some (JNum q)) = (q \<noteq> 0)"
| "truthy (Some (JStr s)) = (s \<noteq> [])"
| "truthy (Some (JArr xs)) = True"
| "truthy (Some (JObj m)) = True"

subsection \<open>Object spread\<close>

text \<open>
  \<^verbatim>\<open>{ ...v }\<close> copies the own enumerable properties of \<open>v\<close>: the properties of an object,
  the elements of an array and the characters of a string under their decimal indices, and
  nothing for \<^verbatim>\<open>null\<close>, a boolean or a number. \<^verbatim>\<open>express.json()\<close> hands the handlers
  an object or an array as \<^verbatim>\<open>req.body\<close>.
\<close>

fun show_nat :: "nat \<Rightarrow> string" where
  "show_nat n =
     (if n < 10 then [char_of (48 + n)]
      else show_nat (n div 10) @ [char_of (48 + n mod 10)])"

declare show_nat.simps [simp del]

fun own_props :: "json \<Rightarrow> props" where
  "own_props (JObj m) = m"
| "own_props (JArr xs) = map_of (zip (map show_nat [0..<length xs]) xs)"
| "own_props (JStr s) = map_of (zip (map show_nat [0..<length s]) (map (\<lambda>c. JStr [c]) s))"
| "own_props _ = Map.empty"

subsection \<open>\<^verbatim>\<open>Math.max\<close>, addition, \<^verbatim>\<open>JSON.stringify\<close> of a number\<close>

text \<open>
  \<^verbatim>\<open>Math.max\<close> converts each argument with ToNumber. The conversion of a string or of an
  array (through its \<^verbatim>\<open>join\<close>) follows the grammar of numeric literals, which is not part
  of this repository: it is the parameter \<open>cv\<close>.
\<close>

fun ToNumber :: "(json \<Rightarrow> jsnumber) \<Rightarrow> json option \<Rightarrow> jsnumber" where
  "ToNumber cv None = NaN"
| "ToNumber cv (Some JNull) = Finite 0"
| "ToNumber cv (Some (JBool b)) = Finite (if b then 1 else 0)"
| "ToNumber cv (Some (JNum q)) = Finite q"
| "ToNumber cv (Some (JStr s)) = cv (JStr s)"
| "ToNumber cv (Some (JArr xs)) = cv (JArr xs)"
| "ToNumber cv (Some (JObj m)) = NaN"

fun max_number :: "jsnumber \<Rightarrow> jsnumber \<Rightarrow> jsnumber" where
  "max_number NaN b = NaN"
| "max_number a NaN = NaN"
| "max_number PosInfinity b = PosInfinity"
| "max_number a PosInfinity = PosInfinity"
| "max_number NegInfinity b = b"
| "max_number a NegInfinity = a"
| "max_number (Finite q) (Finite r) = Finite (max q r)"

definition Math_max :: "jsnumber list \<Rightarrow> jsnumber" where
  "Math_max ns = foldl max_number NegInfinity ns"

text \<open>
  \<^verbatim>\<open>Math.max(...vs)\<close>: the call throws a RangeError when the array has more elements than
  the engine passes as arguments (\<open>limit\<close>), and converts them otherwise.
\<close>

definition Math_max_spread ::
  "(json \<Rightarrow> jsnumber) \<Rightarrow> nat \<Rightarrow> json option list \<Rightarrow> error + jsnumber" where
  "Math_max_spread cv limit vs =
     (if limit < length vs then Inl RangeError else Inr (Math_max (map (ToNumber cv) vs)))"

text \<open>\<^verbatim>\<open>n + r\<close> for a finite number \<open>r\<close>: the sum, rounded.\<close>

fun add_number :: "jsnumber \<Rightarrow> rat \<Rightarrow> jsnumber" where
  "add_number (Finite q) r = round_double (q + r)"
| "add_number n r = n"

text \<open>
  A record leaves a handler only through \<^verbatim>\<open>JSON.stringify\<close> (into the file and into the
  response), which writes \<^verbatim>\<open>NaN\<close> and the infinities as \<^verbatim>\<open>null\<close>.
\<close>

fun number_json :: "jsnumber \<Rightarrow> json" where
  "number_json (Finite q) = JNum q"
| "number_json n = JNull"

subsection \<open>Array methods\<close>

text \<open>Calling an Array method on a value that is not an array throws a TypeError.\<close>

fun as_array :: "json \<Rightarrow> error + json list" where
  "as_array (JArr xs) = Inr xs"
| "as_array _ = Inl TypeError"

fun Array_find :: "(json \<Rightarrow> error + bool) \<Rightarrow> json list \<Rightarrow> error + json option" where
  "Array_find P [] = Inr None"
| "Array_find P (x # xs) =
     (case P x of Inl e \<Rightarrow> Inl e
      | Inr b \<Rightarrow> if b then Inr (Some x) else Array_find P xs)"

fun Array_findIndex :: "(json \<Rightarrow> error + bool) \<Rightarrow> json list \<Rightarrow> error + int" where
  "Array_findIndex P [] = Inr (- 1)"
| "Array_findIndex P (x # xs) =
     (case P x of Inl e \<Rightarrow> Inl e
      | Inr b \<Rightarrow> if b then Inr 0
          else (case Array_findIndex P xs of Inl e \<Rightarrow> Inl e
                | Inr i \<Rightarrow> Inr (if i = - 1 then - 1 else i + 1)))"

fun Array_map :: "(json \<Rightarrow> error + 'b) \<Rightarrow> json list \<Rightarrow> error + 'b list" where
  "Array_map f [] = Inr []"
| "Array_map f (x # xs) =
     (case f x of Inl e \<Rightarrow> Inl e
      | Inr y \<Rightarrow> (case Array_map f xs of Inl e \<Rightarrow> Inl e | Inr ys \<Rightarrow> Inr (y # ys)))"

text \<open>\<^verbatim>\<open>xs[i]\<close>: \<^verbatim>\<open>undefined\<close> out of range.\<close>

definition Array_get :: "json list \<Rightarrow> int \<Rightarrow> json option" where
  "Array_get xs i = (if 0 \<le> i \<and> i < int (length xs) then Some (xs ! nat i) else None)"

text \<open>\<^verbatim>\<open>xs.splice(i, 1)\<close> for an index \<open>i \<ge> 0\<close>: the array without the element at \<open>i\<close>.\<close>

definition splice1 :: "json list \<Rightarrow> int \<Rightarrow> json list" where
  "splice1 xs i = take (nat i) xs @ drop (nat i + 1) xs"

section \<open>The resource store\<close>

text \<open>
  The text of a file is taken up to \<^verbatim>\<open>JSON.parse\<close>: it is the serialisation of a value,
  or it is text that \<^verbatim>\<open>JSON.parse\<close> rejects. A path with no text stands for a file that
  is missing or cannot be read. \<open>unwritable\<close> tells for which paths
  \<^verbatim>\<open>fs.writeFileSync\<close> throws, and \<open>console\<close> collects what the two catch blocks log.
  \<open>max_arguments\<close> is the number of arguments the engine can pass in one call: spreading a
  longer array into a call throws a RangeError.
\<close>

datatype file_text = Serialized json | Malformed

type_synonym path = string

datatype log_entry = ReadError path error | WriteError path error

record world =
  files :: "path \<Rightarrow> file_text option"
  unwritable :: "path \<Rightarrow> bool"
  console :: "log_entry list"
  max_arguments :: nat

definition dataPath :: path where
  "dataPath = ''data/products.json''"

definition usersPath :: path where
  "usersPath = ''data/users.json''"

definition readFileSync :: "world \<Rightarrow> path \<Rightarrow> error + file_text" where
  "readFileSync w p = (case files w p of None \<Rightarrow> Inl FsError | Some t \<Rightarrow> Inr t)"

definition writeFileSync :: "world \<Rightarrow> path \<Rightarrow> file_text \<Rightarrow> error + world" where
  "writeFileSync w p t =
     (if unwritable w p then Inl FsError else Inr (w\<lparr>files := (files w)(p \<mapsto> t)\<rparr>))"

definition JSON_parse :: "file_text \<Rightarrow> error + json" where
  "JSON_parse t = (case t of Serialized v \<Rightarrow> Inr v | Malformed \<Rightarrow> Inl SyntaxError)"

definition JSON_stringify :: "json \<Rightarrow> file_text" where
  "JSON_stringify v = Serialized v"

definition console_error :: "world \<Rightarrow> log_entry \<Rightarrow> world" where
  "console_error w entry = w\<lparr>console := console w @ [entry]\<rparr>"

definition readData :: "world \<Rightarrow> path \<Rightarrow> error + (json \<times> world)" where
  "readData w filePath =
     try_catch
       (ebind (readFileSync w filePath) (\<lambda>t.
        ebind (JSON_parse t) (\<lambda>v. Inr (v, w))))
       (\<lambda>e. Inr (JArr [], console_error w (ReadError filePath e)))"

definition writeData :: "world \<Rightarrow> path \<Rightarrow> json \<Rightarrow> error + world" where
  "writeData w filePath data =
     try_catch
       (writeFileSync w filePath (JSON_stringify data))
       (\<lambda>e. Inr (console_error w (WriteError filePath e)))"

section \<open>The routers\<close>

text \<open>
  A handler takes the world and the request and gives the response and the world after it,
  or the error it throws (nothing is written before a throw). The bodies of the fixed
  answers are Russian sentences in the source; each is a constant here.
\<close>

datatype message = ProductNotFound | ProductDeleted | UserNotFound | UserDeleted

datatype payload = Value json | Message message

datatype response = Response nat payload

text \<open>\<^verbatim>\<open>p => p.id === parseInt(req.params.id)\<close> and \<^verbatim>\<open>u => u.id === req.params.id\<close>\<close>

definition product_matches :: "string \<Rightarrow> json \<Rightarrow> error + bool" where
  "product_matches rid p = ebind (prop_id p) (\<lambda>v. Inr (strict_eq_number v (parseInt rid)))"

definition user_matches :: "string \<Rightarrow> json \<Rightarrow> error + bool" where
  "user_matches rid u = ebind (prop_id u) (\<lambda>v. Inr (strict_eq_string v rid))"

subsection \<open>Products\<close>

definition get_products :: "world \<Rightarrow> error + (response \<times> world)" where
  "get_products w =
     ebind (readData w dataPath) (\<lambda>(products, w1).
     Inr (Response 200 (Value products), w1))"

definition get_product :: "world \<Rightarrow> string \<Rightarrow> error + (response \<times> world)" where
  "get_product w rid =
     ebind (readData w dataPath) (\<lambda>(products, w1).
     ebind (as_array products) (\<lambda>xs.
     ebind (Array_find (product_matches rid) xs) (\<lambda>product.
       case product of
         Some p \<Rightarrow>
           if truthy product then Inr (Response 200 (Value p), w1)
           else Inr (Response 404 (Message ProductNotFound), w1)
       | None \<Rightarrow> Inr (Response 404 (Message ProductNotFound), w1))))"

text \<open>
  \<^verbatim>\<open>{ id: products.length > 0 ? Math.max(...products.map(p => p.id)) + 1 : 1, ...req.body }\<close>:
  the computed id is written first and the properties of the body after it. When the file
  holds a value that is not an array, \<^verbatim>\<open>products.map\<close> or \<^verbatim>\<open>products.push\<close> is not a
  function and the handler throws; it also throws when the collection is too long for the
  spread into \<^verbatim>\<open>Math.max\<close>. The sum is rounded to a double.
\<close>

definition post_product ::
  "(json \<Rightarrow> jsnumber) \<Rightarrow> world \<Rightarrow> json \<Rightarrow> error + (response \<times> world)" where
  "post_product cv w body =
     ebind (readData w dataPath) (\<lambda>(products, w1).
     ebind (as_array products) (\<lambda>xs.
     ebind (if length xs > 0
            then ebind (Array_map prop_id xs) (\<lambda>ids.
                 ebind (Math_max_spread cv (max_arguments w1) ids) (\<lambda>m.
                 Inr (add_number m 1)))
            else Inr (Finite 1)) (\<lambda>nid.
       let newProduct = JObj ([''id'' \<mapsto> number_json nid] ++ own_props body) in
       ebind (writeData w1 dataPath (JArr (xs @ [newProduct]))) (\<lambda>w2.
       Inr (Response 201 (Value newProduct), w2)))))"

text \<open>\<^verbatim>\<open>{ ...products[index], ...req.body, id: products[index].id }\<close>\<close>

definition put_product :: "world \<Rightarrow> string \<Rightarrow> json \<Rightarrow> error + (response \<times> world)" where
  "put_product w rid body =
     ebind (readData w dataPath) (\<lambda>(products, w1).
     ebind (as_array products) (\<lambda>xs.
     ebind (Array_findIndex (product_matches rid) xs) (\<lambda>index.
       if index \<noteq> - 1 then
         (case Array_get xs index of
            None \<Rightarrow> Inl TypeError
          | Some old \<Rightarrow>
              ebind (prop_id old) (\<lambda>oid.
                let updated = JObj ((own_props old ++ own_props body)(''id'' := oid)) in
                ebind (writeData w1 dataPath (JArr (xs[nat index := updated]))) (\<lambda>w2.
                Inr (Response 200 (Value updated), w2))))
       else Inr (Response 404 (Message ProductNotFound), w1))))"

definition delete_product :: "world \<Rightarrow> string \<Rightarrow> error + (response \<times> world)" where
  "delete_product w rid =
     ebind (readData w dataPath) (\<lambda>(products, w1).
     ebind (as_array products) (\<lambda>xs.
     ebind (Array_findIndex (product_matches rid) xs) (\<lambda>index.
       if index \<noteq> - 1 then
         ebind (writeData w1 dataPath (JArr (splice1 xs index))) (\<lambda>w2.
         Inr (Response 200 (Message ProductDeleted), w2))
       else Inr (Response 404 (Message ProductNotFound), w1))))"

subsection \<open>Users\<close>

text \<open>The token that \<^verbatim>\<open>nanoid(6)\<close> draws is an input of the handler.\<close>

definition get_users :: "world \<Rightarrow> error + (response \<times> world)" where
  "get_users w =
     ebind (readData w usersPath) (\<lambda>(users, w1).
     Inr (Response 200 (Value users), w1))"

definition get_user :: "world \<Rightarrow> string \<Rightarrow> error + (response \<times> world)" where
  "get_user w rid =
     ebind (readData w usersPath) (\<lambda>(users, w1).
     ebind (as_array users) (\<lambda>xs.
     ebind (Array_find (user_matches rid) xs) (\<lambda>user.
       case user of
         Some u \<Rightarrow>
           if truthy user then Inr (Response 200 (Value u), w1)
           else Inr (Response 404 (Message UserNotFound), w1)
       | None \<Rightarrow> Inr (Response 404 (Message UserNotFound), w1))))"

definition post_user :: "string \<Rightarrow> world \<Rightarrow> json \<Rightarrow> error + (response \<times> world)" where
  "post_user token w body =
     ebind (readData w usersPath) (\<lambda>(users, w1).
     ebind (as_array users) (\<lambda>xs.
       let newUser = JObj ([''id'' \<mapsto> JStr token] ++ own_props body) in
       ebind (writeData w1 usersPath (JArr (xs @ [newUser]))) (\<lambda>w2.
       Inr (Response 201 (Value newUser), w2))))"

definition put_user :: "world \<Rightarrow> string \<Rightarrow> json \<Rightarrow> error + (response \<times> world)" where
  "put_user w rid body =
     ebind (readData w usersPath) (\<lambda>(users, w1).
     ebind (as_array users) (\<lambda>xs.
     ebind (Array_findIndex (user_matches rid) xs) (\<lambda>index.
       if index \<noteq> - 1 then
         (case Array_get xs index of
            None \<Rightarrow> Inl TypeError
          | Some old \<Rightarrow>
              ebind (prop_id old) (\<lambda>oid.
                let updated = JObj ((own_props old ++ own_props body)(''id'' := oid)) in
                ebind (writeData w1 usersPath (JArr (xs[nat index := updated]))) (\<lambda>w2.
                Inr (Response 200 (Value updated), w2))))
       else Inr (Response 404 (Message UserNotFound), w1))))"

definition delete_user :: "world \<Rightarrow> string \<Rightarrow> error + (response \<times> world)" where
  "delete_user w rid =
     ebind (readData w usersPath) (\<lambda>(users, w1).
     ebind (as_array users) (\<lambda>xs.
     ebind (Array_findIndex (user_matches rid) xs) (\<lambda>index.
       if index \<noteq> - 1 then
         ebind (writeData w1 usersPath (JArr (splice1 xs index))) (\<lambda>w2.
         Inr (Response 200 (Message UserDeleted), w2))
       else Inr (Response 404 (Message UserNotFound), w1))))"

section \<open>Notions used in the statements\<close>

text \<open>
  \<open>number_id\<close> is the id of a record when the record is an object whose id is a number.
  \<open>next_id\<close> is the value of \<^verbatim>\<open>products.length > 0 ? Math.max(...ids) + 1 : 1\<close> on a
  collection whose ids are the integers \<open>ns\<close>, when these are safe integers (below \<open>2 ^ 53\<close>
  in absolute value) and the engine can pass them all in one call; lemma
  \<open>post_product_next_id\<close> below proves that the handler computes it. \<open>show_int\<close> is the text
  that \<^verbatim>\<open>String\<close> gives for an integer below \<open>10 ^ 21\<close> in absolute value: its decimal
  digits, after a minus sign when it is negative.
\<close>

fun number_id :: "json \<Rightarrow> rat option" where
  "number_id (JObj m) = (case m ''id'' of Some (JNum q) \<Rightarrow> Some q | _ \<Rightarrow> None)"
| "number_id _ = None"



section \<open>Example stores\<close>

text \<open>
  Small stores on which the statements below are instantiated: two products, one user, a
  disk that holds both collections and accepts writes, and a disk with no file at all, both
  under an engine that passes 65535 arguments.
\<close>

definition chess :: json where
  "chess = JObj [''id'' \<mapsto> JNum 1, ''name'' \<mapsto> JStr ''Chess'']"

definition go :: json where
  "go = JObj [''id'' \<mapsto> JNum 12, ''name'' \<mapsto> JStr ''Go'']"

definition alice :: json where
  "alice = JObj [''id'' \<mapsto> JStr ''a1b2c3'', ''name'' \<mapsto> JStr ''Alice'', ''age'' \<mapsto> JNum 30]"

definition disk :: "json list \<Rightarrow> json list \<Rightarrow> world" where
  "disk products users =
     \<lparr>files = [usersPath \<mapsto> Serialized (JArr users), dataPath \<mapsto> Serialized (JArr products)],
      unwritable = (\<lambda>p. False), console = [], max_arguments = 65535\<rparr>"

definition no_disk :: world where
  "no_disk =
     \<lparr>files = Map.empty, unwritable = (\<lambda>p. False), console = [], max_arguments = 65535\<rparr>"

section \<open>Lemmas\<close>

lemma round_half_even_of_int [simp]: "round_half_even (of_int m) = m"
  by (simp add: round_half_even_def)

lemma binade_of_int: "0 < n \<Longrightarrow> binade (of_int n) = bitlen n - 1"
  by (simp add: binade_def)

lemma round_double_scaled:
  assumes q: "q \<noteq> 0" and e: "e = max (binade \<bar>q\<bar>) (- 1022)"
    and m: "\<bar>q\<bar> / 2 powi (e - 52) = of_int m" and small: "\<bar>q\<bar> < 2 ^ 1024"
  shows "round_double q = Finite q"
proof -
  have pos: "(2::rat) powi (e - 52) \<noteq> 0" by simp
  from m have "of_int m * 2 powi (e - 52) = \<bar>q\<bar>"
    using pos by (simp add: field_simps)
  with q e m small show ?thesis
    by (auto simp: round_double_def Let_def)
qed

lemma round_double_safe_int:
  assumes "\<bar>n\<bar> \<le> 2 ^ 53"
  shows "round_double (of_int n) = Finite (of_int n)"
proof (cases "n = 0")
  case True
  then show ?thesis by (simp add: round_double_def)
next
  case False
  define a where "a = \<bar>n\<bar>"
  with False have a: "0 < a" "a \<le> 2 ^ 53" using assms by auto
  define e where "e = bitlen a - 1"
  from bitlen_bounds [OF a(1)] have lo: "2 ^ nat e \<le> a" and hi: "a < 2 ^ nat (bitlen a)"
    by (simp_all add: e_def)
  from a(1) have e0: "0 \<le> e"
    using bitlen_eq_zero_iff [of a] bitlen_nonneg [of a] by (simp add: e_def)
  have "bitlen a \<le> 54"
    using a by (simp add: bitlen_le_iff_power)
  then have e53: "e \<le> 53" by (simp add: e_def)
  have b: "binade \<bar>rat_of_int n\<bar> = e"
    using a(1) binade_of_int [of a] by (simp add: a_def e_def)
  have mx: "max e (- 1022) = e" using e0 by simp
  have "\<exists>m. \<bar>rat_of_int n\<bar> / 2 powi (e - 52) = of_int m"
  proof (cases "e \<le> 52")
    case True
    then have "(2::rat) powi (e - 52) = inverse (2 ^ nat (52 - e))"
      by (simp add: power_int_def power_one_over inverse_eq_divide)
    then have "\<bar>rat_of_int n\<bar> / 2 powi (e - 52) = of_int (a * 2 ^ nat (52 - e))"
      by (simp add: a_def divide_inverse)
    then show ?thesis by blast
  next
    case False
    with e53 have e: "e = 53" by simp
    with lo a(2) have "a = 2 ^ 53" by simp
    then have "\<bar>rat_of_int n\<bar> / 2 powi (e - 52) = of_int (2 ^ 52)"
      by (simp add: a_def e)
    then show ?thesis by blast
  qed
  then obtain m where m: "\<bar>rat_of_int n\<bar> / 2 powi (e - 52) = of_int m" by blast
  have small: "\<bar>rat_of_int n\<bar> < 2 ^ 1024"
  proof -
    have "\<bar>rat_of_int n\<bar> \<le> 2 ^ 53"
      using assms by (metis of_int_abs of_int_le_numeral_power_cancel_iff)
    also have "\<dots> < (2::rat) ^ 1024" by simp
    finally show ?thesis .
  qed
  from False have "rat_of_int n \<noteq> 0" by simp
  from round_double_scaled [OF this _ _ small, of e m] b mx m show ?thesis by simp
qed

lemma round_double_of_nat:
  "n \<le> 2 ^ 53 \<Longrightarrow> round_double (of_nat n) = Finite (of_nat n)"
  using round_double_safe_int [of "int n"] by simp

lemma round_double_numeral [simp]:
  "numeral k \<le> (2::int) ^ 53 \<Longrightarrow> round_double (numeral k) = Finite (numeral k)"
  using round_double_safe_int [of "numeral k"] by simp

lemma round_double_one [simp]: "round_double 1 = Finite 1"
  using round_double_safe_int [of 1] by simp

text \<open>Past \<open>2 ^ 53\<close> the next integer is not a double: adding 1 gives the same number.\<close>

lemma round_double_past_safe: "round_double (2 ^ 53 + 1) = Finite (2 ^ 53)"
  by code_simp

lemma add_number_past_safe: "add_number (Finite (2 ^ 53)) 1 = Finite (2 ^ 53)"
  using round_double_past_safe by simp

lemma ebind_Inr [simp]: "ebind (Inr v) f = f v"
  by (simp add: ebind_def)

lemma ebind_Inl [simp]: "ebind (Inl e) f = Inl e"
  by (simp add: ebind_def)

lemma readData_serialized:
  "files w p = Some (Serialized v) \<Longrightarrow> readData w p = Inr (v, w)"
  by (simp add: readData_def readFileSync_def JSON_parse_def try_catch_def)

lemma readData_missing:
  "files w p = None \<Longrightarrow> readData w p = Inr (JArr [], console_error w (ReadError p FsError))"
  by (simp add: readData_def readFileSync_def try_catch_def)

lemma readData_malformed:
  "files w p = Some Malformed \<Longrightarrow>
     readData w p = Inr (JArr [], console_error w (ReadError p SyntaxError))"
  by (simp add: readData_def readFileSync_def JSON_parse_def try_catch_def)

lemma readData_cases:
  obtains v where "files w p = Some (Serialized v)" "readData w p = Inr (v, w)"
  | e where "readData w p = Inr (JArr [], console_error w (ReadError p e))"
      "files w p = None \<or> files w p = Some Malformed"
proof (cases "files w p")
  case None
  then show ?thesis using that(2) readData_missing by blast
next
  case (Some t)
  show ?thesis
  proof (cases t)
    case (Serialized v)
    with Some show ?thesis using that(1) readData_serialized by blast
  next
    case Malformed
    with Some show ?thesis using that(2) readData_malformed by blast
  qed
qed

lemma readData_frame:
  assumes "readData w p = Inr (v, w1)"
  shows "files w1 = files w \<and> unwritable w1 = unwritable w \<and>
    max_arguments w1 = max_arguments w"
  using assms by (cases rule: readData_cases [of w p]) (auto simp: console_error_def)

lemma readData_again:
  assumes "readData w p = Inr (v, w1)"
  shows "\<exists>w2. readData w1 p = Inr (v, w2)"
proof (cases rule: readData_cases [of w p])
  case (1 u)
  with assms show ?thesis by auto
next
  case (2 e)
  with assms have w1: "w1 = console_error w (ReadError p e)" and v: "v = JArr []" by auto
  from 2(2) have "files w1 p = None \<or> files w1 p = Some Malformed"
    by (simp add: w1 console_error_def)
  then show ?thesis
    using readData_missing [of w1 p] readData_malformed [of w1 p] v by auto
qed

lemma writeData_ok:
  "\<not> unwritable w p \<Longrightarrow>
     writeData w p v = Inr (w\<lparr>files := (files w)(p \<mapsto> Serialized v)\<rparr>)"
  by (simp add: writeData_def writeFileSync_def try_catch_def JSON_stringify_def)

lemma writeData_fail:
  "unwritable w p \<Longrightarrow> writeData w p v = Inr (console_error w (WriteError p FsError))"
  by (simp add: writeData_def writeFileSync_def try_catch_def)

lemma writeData_result:
  "\<exists>w2. writeData w p v = Inr w2 \<and> unwritable w2 = unwritable w \<and>
     files w2 = (if unwritable w p then files w else (files w)(p \<mapsto> Serialized v))"
  by (cases "unwritable w p") (simp_all add: writeData_ok writeData_fail console_error_def)

lemma findIndex_none:
  "\<forall>x\<in>set xs. P x = Inr False \<Longrightarrow> Array_findIndex P xs = Inr (- 1)"
  by (induction xs) simp_all

lemma findIndex_first:
  "i < length xs \<Longrightarrow> P (xs ! i) = Inr True \<Longrightarrow> \<forall>j<i. P (xs ! j) = Inr False \<Longrightarrow>
     Array_findIndex P xs = Inr (int i)"
proof (induction xs arbitrary: i)
  case Nil
  then show ?case by simp
next
  case (Cons x xs)
  show ?case
  proof (cases i)
    case 0
    with Cons.prems show ?thesis by simp
  next
    case (Suc k)
    from Cons.prems(3) Suc have x: "P x = Inr False" by auto
    have "\<forall>j<k. P (xs ! j) = Inr False"
      using Cons.prems(3) Suc by auto
    with Cons.IH [of k] Cons.prems(1,2) Suc have "Array_findIndex P xs = Inr (int k)"
      by simp
    with x Suc show ?thesis by simp
  qed
qed

lemma find_none:
  "\<forall>x\<in>set xs. P x = Inr False \<Longrightarrow> Array_find P xs = Inr None"
  by (induction xs) simp_all

lemma find_first:
  "i < length xs \<Longrightarrow> P (xs ! i) = Inr True \<Longrightarrow> \<forall>j<i. P (xs ! j) = Inr False \<Longrightarrow>
     Array_find P xs = Inr (Some (xs ! i))"
proof (induction xs arbitrary: i)
  case Nil
  then show ?case by simp
next
  case (Cons x xs)
  show ?case
  proof (cases i)
    case 0
    with Cons.prems show ?thesis by simp
  next
    case (Suc k)
    from Cons.prems(3) Suc have x: "P x = Inr False" by auto
    have "\<forall>j<k. P (xs ! j) = Inr False"
      using Cons.prems(3) Suc by auto
    with Cons.IH [of k] Cons.prems(1,2) Suc have "Array_find P xs = Inr (Some (xs ! k))"
      by simp
    with x Suc show ?thesis by simp
  qed
qed

lemma product_matches_JObj:
  "product_matches rid (JObj m) = Inr (strict_eq_number (m ''id'') (parseInt rid))"
  by (simp add: product_matches_def)

lemma user_matches_JObj:
  "user_matches rid (JObj m) = Inr (strict_eq_string (m ''id'') rid)"
  by (simp add: user_matches_def)

lemma product_matches_True:
  assumes "product_matches rid p = Inr True"
  obtains m q where "p = JObj m" "m ''id'' = Some (JNum q)" "parseInt rid = Finite q"
proof -
  from assms obtain m where p: "p = JObj m"
    by (cases p) (simp_all add: product_matches_def)
  with assms have eq: "strict_eq_number (m ''id'') (parseInt rid)"
    by (simp add: product_matches_JObj)
  then obtain q where "m ''id'' = Some (JNum q)" "parseInt rid = Finite q"
    by (cases "(m ''id'', parseInt rid)" rule: strict_eq_number.cases) auto
  with p that show thesis by blast
qed

lemma user_matches_True:
  assumes "user_matches rid p = Inr True"
  obtains m where "p = JObj m" "m ''id'' = Some (JStr rid)"
proof -
  from assms obtain m where p: "p = JObj m"
    by (cases p) (simp_all add: user_matches_def)
  with assms have eq: "strict_eq_string (m ''id'') rid"
    by (simp add: user_matches_JObj)
  then have "m ''id'' = Some (JStr rid)"
    by (cases "(m ''id'', rid)" rule: strict_eq_string.cases) auto
  with p that show thesis by blast
qed

lemma Array_get_nth: "i < length xs \<Longrightarrow> Array_get xs (int i) = Some (xs ! i)"
  by (simp add: Array_get_def)

lemma splice1_nth: "splice1 xs (int i) = take i xs @ drop (Suc i) xs"
  by (simp add: splice1_def)

lemma get_product_miss:
  assumes "readData w dataPath = Inr (JArr xs, w1)"
    and "\<forall>x\<in>set xs. product_matches rid x = Inr False"
  shows "get_product w rid = Inr (Response 404 (Message ProductNotFound), w1)"
  using assms by (simp add: get_product_def find_none)

lemma put_product_miss:
  assumes "readData w dataPath = Inr (JArr xs, w1)"
    and "\<forall>x\<in>set xs. product_matches rid x = Inr False"
  shows "put_product w rid body = Inr (Response 404 (Message ProductNotFound), w1)"
  using assms by (simp add: put_product_def findIndex_none)

lemma delete_product_miss:
  assumes "readData w dataPath = Inr (JArr xs, w1)"
    and "\<forall>x\<in>set xs. product_matches rid x = Inr False"
  shows "delete_product w rid = Inr (Response 404 (Message ProductNotFound), w1)"
  using assms by (simp add: delete_product_def findIndex_none)

lemma get_product_hit:
  assumes "readData w dataPath = Inr (JArr xs, w1)"
    and "i < length xs" and "product_matches rid (xs ! i) = Inr True"
    and "\<forall>j<i. product_matches rid (xs ! j) = Inr False"
  shows "get_product w rid = Inr (Response 200 (Value (xs ! i)), w1)"
proof -
  from assms(3) obtain m where "xs ! i = JObj m"
    by (rule product_matches_True)
  with assms show ?thesis
    by (simp add: get_product_def find_first [of i xs])
qed

lemma put_product_hit:
  assumes "readData w dataPath = Inr (JArr xs, w1)"
    and "i < length xs" and "xs ! i = JObj old"
    and "product_matches rid (xs ! i) = Inr True"
    and "\<forall>j<i. product_matches rid (xs ! j) = Inr False"
    and "r = (old ++ own_props body)(''id'' := old ''id'')"
  shows "put_product w rid body =
     ebind (writeData w1 dataPath (JArr (xs[i := JObj r])))
       (\<lambda>w2. Inr (Response 200 (Value (JObj r)), w2))"
  using assms
  by (simp add: put_product_def findIndex_first [of i xs] Array_get_nth Let_def)

lemma delete_product_hit:
  assumes "readData w dataPath = Inr (JArr xs, w1)"
    and "i < length xs" and "product_matches rid (xs ! i) = Inr True"
    and "\<forall>j<i. product_matches rid (xs ! j) = Inr False"
  shows "delete_product w rid =
     ebind (writeData w1 dataPath (JArr (take i xs @ drop (Suc i) xs)))
       (\<lambda>w2. Inr (Response 200 (Message ProductDeleted), w2))"
  using assms
  by (simp add: delete_product_def findIndex_first [of i xs] splice1_nth)

lemma put_user_miss:
  assumes "readData w usersPath = Inr (JArr xs, w1)"
    and "\<forall>x\<in>set xs. user_matches rid x = Inr False"
  shows "put_user w rid body = Inr (Response 404 (Message UserNotFound), w1)"
  using assms by (simp add: put_user_def findIndex_none)

lemma delete_user_miss:
  assumes "readData w usersPath = Inr (JArr xs, w1)"
    and "\<forall>x\<in>set xs. user_matches rid x = Inr False"
  shows "delete_user w rid = Inr (Response 404 (Message UserNotFound), w1)"
  using assms by (simp add: delete_user_def findIndex_none)

lemma put_user_hit:
  assumes "readData w usersPath = Inr (JArr xs, w1)"
    and "i < length xs" and "xs ! i = JObj old"
    and "user_matches rid (xs ! i) = Inr True"
    and "\<forall>j<i. user_matches rid (xs ! j) = Inr False"
    and "r = (old ++ own_props body)(''id'' := old ''id'')"
  shows "put_user w rid body =
     ebind (writeData w1 usersPath (JArr (xs[i := JObj r])))
       (\<lambda>w2. Inr (Response 200 (Value (JObj r)), w2))"
  using assms
  by (simp add: put_user_def findIndex_first [of i xs] Array_get_nth Let_def)

lemma delete_user_hit:
  assumes "readData w usersPath = Inr (JArr xs, w1)"
    and "i < length xs" and "user_matches rid (xs ! i) = Inr True"
    and "\<forall>j<i. user_matches rid (xs ! j) = Inr False"
  shows "delete_user w rid =
     ebind (writeData w1 usersPath (JArr (take i xs @ drop (Suc i) xs)))
       (\<lambda>w2. Inr (Response 200 (Message UserDeleted), w2))"
  using assms
  by (simp add: delete_user_def findIndex_first [of i xs] splice1_nth)

lemma paths_differ: "dataPath \<noteq> usersPath"
  by (simp add: dataPath_def usersPath_def)

lemma readData_disk:
  "readData (disk ps us) dataPath = Inr (JArr ps, disk ps us)"
  "readData (disk ps us) usersPath = Inr (JArr us, disk ps us)"
  using paths_differ by (simp_all add: readData_serialized disk_def)

lemma disk_write_products:
  "(disk ps us)\<lparr>files := (files (disk ps us))(dataPath \<mapsto> Serialized (JArr ps'))\<rparr> = disk ps' us"
  by (simp add: disk_def)

lemma disk_write_users:
  "(disk ps us)\<lparr>files := (files (disk ps us))(usersPath \<mapsto> Serialized (JArr us'))\<rparr> = disk ps us'"
  using paths_differ by (simp add: disk_def fun_upd_twist)

lemma disk_writable: "\<not> unwritable (disk ps us) p"
  by (simp add: disk_def)

lemma disk_max_arguments: "max_arguments (disk ps us) = 65535"
  by (simp add: disk_def)

lemma product_matches_NaN:
  "parseInt rid = NaN \<Longrightarrow> p \<noteq> JNull \<Longrightarrow> product_matches rid p = Inr False"
  by (cases p) (simp_all add: product_matches_def)

lemma after_write:
  assumes "readData w p = Inr (v, w1)"
  shows "\<exists>w'. writeData w1 p u = Inr w' \<and> unwritable w' = unwritable w \<and>
           files w' = (if unwritable w p then files w else (files w)(p \<mapsto> Serialized u))"
  using writeData_result [of w1 p u] readData_frame [OF assms] by auto

lemma put_product_hit_world:
  assumes "readData w dataPath = Inr (JArr xs, w1)"
    and "i < length xs" and "xs ! i = JObj old"
    and "product_matches rid (xs ! i) = Inr True"
    and "\<forall>j<i. product_matches rid (xs ! j) = Inr False"
    and "r = (old ++ own_props body)(''id'' := old ''id'')"
  shows "\<exists>w'. put_product w rid body = Inr (Response 200 (Value (JObj r)), w') \<and>
           unwritable w' = unwritable w \<and>
           files w' = (if unwritable w dataPath then files w
                       else (files w)(dataPath \<mapsto> Serialized (JArr (xs[i := JObj r]))))"
  using after_write [OF assms(1), of "JArr (xs[i := JObj r])"]
  by (auto simp: put_product_hit [OF assms])

lemma put_user_hit_world:
  assumes "readData w usersPath = Inr (JArr xs, w1)"
    and "i < length xs" and "xs ! i = JObj old"
    and "user_matches rid (xs ! i) = Inr True"
    and "\<forall>j<i. user_matches rid (xs ! j) = Inr False"
    and "r = (old ++ own_props body)(''id'' := old ''id'')"
  shows "\<exists>w'. put_user w rid body = Inr (Response 200 (Value (JObj r)), w') \<and>
           unwritable w' = unwritable w \<and>
           files w' = (if unwritable w usersPath then files w
                       else (files w)(usersPath \<mapsto> Serialized (JArr (xs[i := JObj r]))))"
  using after_write [OF assms(1), of "JArr (xs[i := JObj r])"]
  by (auto simp: put_user_hit [OF assms])

lemma delete_product_hit_world:
  assumes "readData w dataPath = Inr (JArr xs, w1)"
    and "i < length xs" and "product_matches rid (xs ! i) = Inr True"
    and "\<forall>j<i. product_matches rid (xs ! j) = Inr False"
  shows "\<exists>w'. delete_product w rid = Inr (Response 200 (Message ProductDeleted), w') \<and>
           unwritable w' = unwritable w \<and>
           files w' = (if unwritable w dataPath then files w
                       else (files w)(dataPath \<mapsto> Serialized (JArr (take i xs @ drop (Suc i) xs))))"
  using after_write [OF assms(1), of "JArr (take i xs @ drop (Suc i) xs)"]
  by (auto simp: delete_product_hit [OF assms])

lemma delete_user_hit_world:
  assumes "readData w usersPath = Inr (JArr xs, w1)"
    and "i < length xs" and "user_matches rid (xs ! i) = Inr True"
    and "\<forall>j<i. user_matches rid (xs ! j) = Inr False"
  shows "\<exists>w'. delete_user w rid = Inr (Response 200 (Message UserDeleted), w') \<and>
           unwritable w' = unwritable w \<and>
           files w' = (if unwritable w usersPath then files w
                       else (files w)(usersPath \<mapsto> Serialized (JArr (take i xs @ drop (Suc i) xs))))"
  using after_write [OF assms(1), of "JArr (take i xs @ drop (Suc i) xs)"]
  by (auto simp: delete_user_hit [OF assms])

lemma merged_fields:
  assumes "r = (old ++ b)(''id'' := old ''id'')"
  shows "r ''id'' = old ''id'' \<and>
         (\<forall>k. k \<noteq> ''id'' \<longrightarrow> r k = (case b k of Some v \<Rightarrow> Some v | None \<Rightarrow> old k))"
  using assms by (auto simp: map_add_def split: option.splits)

lemmas parseInt_eval =
  parseInt_def is_white_space_def radix_digit_def digit_of_def Let_def

lemma parseInt_examples:
  "parseInt ''12'' = Finite 12" "parseInt ''99'' = Finite 99" "parseInt ''12abc'' = Finite 12"
  "parseInt ''2'' = Finite 2"
  by (simp_all add: parseInt_eval)

lemma matches_examples:
  "product_matches ''12'' chess = Inr False" "product_matches ''12'' go = Inr True"
  "product_matches ''99'' chess = Inr False" "product_matches ''99'' go = Inr False"
  "product_matches ''12abc'' chess = Inr False" "product_matches ''12abc'' go = Inr True"
  "user_matches ''a1b2c3'' alice = Inr True" "user_matches ''99'' alice = Inr False"
  by (simp_all add: product_matches_def user_matches_def chess_def go_def alice_def
      parseInt_examples)

lemma in_set_without_nth:
  assumes "y \<in> set (take i xs @ drop (Suc i) xs)"
  shows "\<exists>j<length xs. j \<noteq> i \<and> y = xs ! j"
proof -
  from assms consider "y \<in> set (take i xs)" | "y \<in> set (drop (Suc i) xs)"
    by auto
  then show ?thesis
  proof cases
    case 1
    then obtain j where "j < length (take i xs)" "y = take i xs ! j"
      by (auto simp: in_set_conv_nth)
    then have "j < length xs" "j \<noteq> i" "y = xs ! j"
      by auto
    then show ?thesis by blast
  next
    case 2
    then obtain k where k: "k < length (drop (Suc i) xs)" "y = drop (Suc i) xs ! k"
      by (auto simp: in_set_conv_nth)
    then have "Suc i + k < length xs" "Suc i + k \<noteq> i" "y = xs ! (Suc i + k)"
      by auto
    then show ?thesis by blast
  qed
qed

lemma without_nth_frame:
  assumes "i < length xs"
  shows "length (take i xs @ drop (Suc i) xs) = length xs - 1"
    and "\<forall>j<i. (take i xs @ drop (Suc i) xs) ! j = xs ! j"
    and "\<forall>j. i \<le> j \<and> j < length xs - 1 \<longrightarrow> (take i xs @ drop (Suc i) xs) ! j = xs ! Suc j"
  using assms by (auto simp: nth_append min_def)

lemma put_product_frame:
  assumes rd: "readData w dataPath = Inr (JArr xs, w1)" and wr: "\<not> unwritable w dataPath"
    and i: "i < length xs" and m: "product_matches rid (xs ! i) = Inr True"
    and b: "\<forall>j<i. product_matches rid (xs ! j) = Inr False"
  shows "\<exists>r zs w'. put_product w rid body = Inr (Response 200 (Value r), w') \<and>
      files w' dataPath = Some (Serialized (JArr zs)) \<and>
      length zs = length xs \<and> zs ! i = r \<and>
      (\<forall>j<length xs. j \<noteq> i \<longrightarrow> zs ! j = xs ! j) \<and>
      (\<forall>p. p \<noteq> dataPath \<longrightarrow> files w' p = files w p)"
proof -
  from m obtain old where old: "xs ! i = JObj old"
    by (rule product_matches_True)
  define r where "r = (old ++ own_props body)(''id'' := old ''id'')"
  from put_product_hit_world [OF rd i old m b r_def] wr obtain w' where
    p: "put_product w rid body = Inr (Response 200 (Value (JObj r)), w')"
    and f: "files w' = (files w)(dataPath \<mapsto> Serialized (JArr (xs[i := JObj r])))"
    by auto
  have 1: "files w' dataPath = Some (Serialized (JArr (xs[i := JObj r])))"
    by (simp add: f)
  have 2: "length (xs[i := JObj r]) = length xs" by simp
  have 3: "(xs[i := JObj r]) ! i = JObj r" using i by simp
  have 4: "\<forall>j<length xs. j \<noteq> i \<longrightarrow> (xs[i := JObj r]) ! j = xs ! j" by simp
  have 5: "\<forall>p. p \<noteq> dataPath \<longrightarrow> files w' p = files w p" by (simp add: f)
  from p 1 2 3 4 5 show ?thesis by blast
qed

lemma put_user_frame:
  assumes rd: "readData w usersPath = Inr (JArr xs, w1)" and wr: "\<not> unwritable w usersPath"
    and i: "i < length xs" and m: "user_matches rid (xs ! i) = Inr True"
    and b: "\<forall>j<i. user_matches rid (xs ! j) = Inr False"
  shows "\<exists>r zs w'. put_user w rid body = Inr (Response 200 (Value r), w') \<and>
      files w' usersPath = Some (Serialized (JArr zs)) \<and>
      length zs = length xs \<and> zs ! i = r \<and>
      (\<forall>j<length xs. j \<noteq> i \<longrightarrow> zs ! j = xs ! j) \<and>
      (\<forall>p. p \<noteq> usersPath \<longrightarrow> files w' p = files w p)"
proof -
  from m obtain old where old: "xs ! i = JObj old"
    by (rule user_matches_True)
  define r where "r = (old ++ own_props body)(''id'' := old ''id'')"
  from put_user_hit_world [OF rd i old m b r_def] wr obtain w' where
    p: "put_user w rid body = Inr (Response 200 (Value (JObj r)), w')"
    and f: "files w' = (files w)(usersPath \<mapsto> Serialized (JArr (xs[i := JObj r])))"
    by auto
  have 1: "files w' usersPath = Some (Serialized (JArr (xs[i := JObj r])))"
    by (simp add: f)
  have 2: "length (xs[i := JObj r]) = length xs" by simp
  have 3: "(xs[i := JObj r]) ! i = JObj r" using i by simp
  have 4: "\<forall>j<length xs. j \<noteq> i \<longrightarrow> (xs[i := JObj r]) ! j = xs ! j" by simp
  have 5: "\<forall>p. p \<noteq> usersPath \<longrightarrow> files w' p = files w p" by (simp add: f)
  from p 1 2 3 4 5 show ?thesis by blast
qed

lemma delete_product_frame:
  assumes rd: "readData w dataPath = Inr (JArr xs, w1)" and wr: "\<not> unwritable w dataPath"
    and i: "i < length xs" and m: "product_matches rid (xs ! i) = Inr True"
    and b: "\<forall>j<i. product_matches rid (xs ! j) = Inr False"
  shows "\<exists>zs w'. delete_product w rid = Inr (Response 200 (Message ProductDeleted), w') \<and>
      files w' dataPath = Some (Serialized (JArr zs)) \<and>
      length zs = length xs - 1 \<and>
      (\<forall>j<i. zs ! j = xs ! j) \<and>
      (\<forall>j. i \<le> j \<and> j < length xs - 1 \<longrightarrow> zs ! j = xs ! Suc j) \<and>
      (\<forall>p. p \<noteq> dataPath \<longrightarrow> files w' p = files w p)"
proof -
  let ?zs = "take i xs @ drop (Suc i) xs"
  from delete_product_hit_world [OF rd i m b] wr obtain w' where
    p: "delete_product w rid = Inr (Response 200 (Message ProductDeleted), w')"
    and f: "files w' = (files w)(dataPath \<mapsto> Serialized (JArr ?zs))"
    by auto
  have 1: "files w' dataPath = Some (Serialized (JArr ?zs))"
    by (simp add: f)
  have 5: "\<forall>p. p \<noteq> dataPath \<longrightarrow> files w' p = files w p" by (simp add: f)
  from p 1 5 without_nth_frame [OF i] show ?thesis by blast
qed

lemma delete_user_frame:
  assumes rd: "readData w usersPath = Inr (JArr xs, w1)" and wr: "\<not> unwritable w usersPath"
    and i: "i < length xs" and m: "user_matches rid (xs ! i) = Inr True"
    and b: "\<forall>j<i. user_matches rid (xs ! j) = Inr False"
  shows "\<exists>zs w'. delete_user w rid = Inr (Response 200 (Message UserDeleted), w') \<and>
      files w' usersPath = Some (Serialized (JArr zs)) \<and>
      length zs = length xs - 1 \<and>
      (\<forall>j<i. zs ! j = xs ! j) \<and>
      (\<forall>j. i \<le> j \<and> j < length xs - 1 \<longrightarrow> zs ! j = xs ! Suc j) \<and>
      (\<forall>p. p \<noteq> usersPath \<longrightarrow> files w' p = files w p)"
proof -
  let ?zs = "take i xs @ drop (Suc i) xs"
  from delete_user_hit_world [OF rd i m b] wr obtain w' where
    p: "delete_user w rid = Inr (Response 200 (Message UserDeleted), w')"
    and f: "files w' = (files w)(usersPath \<mapsto> Serialized (JArr ?zs))"
    by auto
  have 1: "files w' usersPath = Some (Serialized (JArr ?zs))"
    by (simp add: f)
  have 5: "\<forall>p. p \<noteq> usersPath \<longrightarrow> files w' p = files w p" by (simp add: f)
  from p 1 5 without_nth_frame [OF i] show ?thesis by blast
qed

lemma radix_digit_10: "radix_digit 10 c \<longleftrightarrow> 48 \<le> (of_char c :: nat) \<and> (of_char c :: nat) \<le> 57"
  by (auto simp: radix_digit_def digit_of_def Let_def)

lemma decimal_digit_plain:
  assumes "radix_digit 10 c"
  shows "\<not> is_white_space c" "c \<noteq> CHR ''+''" "c \<noteq> CHR ''-''" "c \<noteq> CHR ''x''" "c \<noteq> CHR ''X''"
  using assms by (auto simp: radix_digit_10 is_white_space_def)

lemma parseInt_decimal_prefix:
  assumes ne: "ds \<noteq> []" and dig: "\<forall>c\<in>set ds. radix_digit 10 c"
    and stop: "rest = [] \<or> \<not> radix_digit 10 (hd rest)"
    and nohex: "\<not> (ds = ''0'' \<and> rest \<noteq> [] \<and> (hd rest = CHR ''x'' \<or> hd rest = CHR ''X''))"
  shows "parseInt (ds @ rest) = round_double (of_nat (digits_value 10 0 ds))"
    and "parseInt (CHR ''-'' # ds @ rest) = round_double (- of_nat (digits_value 10 0 ds))"
proof -
  from ne obtain d ds' where ds: "ds = d # ds'"
    by (cases ds) auto
  with dig have d: "radix_digit 10 d" by simp
  note plain = decimal_digit_plain [OF d]
  define s where "s = ds @ rest"
  have S: "dropWhile is_white_space s = s"
    using plain(1) by (simp add: ds s_def)
  have hd: "hd s = d" and nonempty: "s \<noteq> []"
    by (simp_all add: ds s_def)
  have second: "hd (ds' @ rest) \<noteq> CHR ''x'' \<and> hd (ds' @ rest) \<noteq> CHR ''X'' \<or> d \<noteq> CHR ''0''"
    if "ds' @ rest \<noteq> []"
  proof (cases ds')
    case Nil
    with that have "rest \<noteq> []" by simp
    with nohex Nil ds show ?thesis by auto
  next
    case (Cons e es)
    with dig ds have "radix_digit 10 e" by simp
    from decimal_digit_plain(4,5) [OF this] Cons show ?thesis by simp
  qed
  have nothex: "(2 \<le> length s \<and> (take 2 s = ''0x'' \<or> take 2 s = ''0X'')) = False"
  proof -
    have False if a: "2 \<le> length s \<and> (take 2 s = ''0x'' \<or> take 2 s = ''0X'')"
    proof -
      from a have n: "ds' @ rest \<noteq> []" by (auto simp: ds s_def)
      then obtain e es where e: "ds' @ rest = e # es" by (cases "ds' @ rest") auto
      then have "s = d # e # es" by (simp add: s_def ds)
      with a have "d = CHR ''0'' \<and> (e = CHR ''x'' \<or> e = CHR ''X'')"
        by auto
      with second [OF n] e show False by auto
    qed
    then show ?thesis by blast
  qed
  have Z: "takeWhile (radix_digit 10) s = ds"
    using dig stop by (simp add: takeWhile_eq_Nil_iff s_def)
  have "parseInt s = round_double (of_nat (digits_value 10 0 ds))"
    unfolding parseInt_def Let_def
    using plain(2,3) ne by (simp add: S hd nonempty nothex Z)
  then show "parseInt (ds @ rest) = round_double (of_nat (digits_value 10 0 ds))"
    by (simp add: s_def)
  have minus: "dropWhile is_white_space (CHR ''-'' # s) = CHR ''-'' # s"
    by (simp add: is_white_space_def)
  have "parseInt (CHR ''-'' # s) = round_double (- of_nat (digits_value 10 0 ds))"
    unfolding parseInt_def Let_def minus
    using ne by (simp add: nothex Z)
  then show "parseInt (CHR ''-'' # ds @ rest) = round_double (- of_nat (digits_value 10 0 ds))"
    by (simp add: s_def)
qed

lemma parseInt_decimal_prefix_safe:
  assumes "ds \<noteq> []" and "\<forall>c\<in>set ds. radix_digit 10 c"
    and "rest = [] \<or> \<not> radix_digit 10 (hd rest)"
    and "\<not> (ds = ''0'' \<and> rest \<noteq> [] \<and> (hd rest = CHR ''x'' \<or> hd rest = CHR ''X''))"
    and "digits_value 10 0 ds < 2 ^ 53"
  shows "parseInt (ds @ rest) = Finite (of_nat (digits_value 10 0 ds))"
  using parseInt_decimal_prefix(1) [OF assms(1-4)] assms(5)
  by (simp add: round_double_of_nat)

lemma not_matching_number:
  assumes "parseInt rid = Finite q" and "p \<noteq> JNull" and "number_id p \<noteq> Some q"
  shows "product_matches rid p = Inr False"
proof (cases p)
  case (JObj m)
  with assms(3) have "m ''id'' \<noteq> Some (JNum q)" by auto
  then have "\<not> strict_eq_number (m ''id'') (Finite q)"
    by (cases "(m ''id'', Finite q)" rule: strict_eq_number.cases) auto
  with JObj assms(1) show ?thesis by (simp add: product_matches_JObj)
qed (use assms(2) in \<open>simp_all add: product_matches_def\<close>)

lemma digits_value_12: "digits_value 10 0 ''12'' = 12"
  by (simp add: digit_of_def)


















section \<open>The claims\<close>

text \<open>
  Claim C1. The claim: the id of a created product is the computed next id whatever the
  request body holds, so it differs from every id present before the call, even when the
  body has an id of its own. The handler writes the computed id first and spreads the body
  after it, so an id in the body replaces the computed one. On a collection that holds one
  product with id 1, a body with id 1 is answered with a record of id 1, and the collection
  then holds two records with that id. The two update handlers write the id after the body
  and do keep it.
\<close>

theorem post_product_body_id_wins:
  "post_product cv (disk [chess] []) (JObj [''id'' \<mapsto> JNum 1, ''name'' \<mapsto> JStr ''Go'']) =
     Inr (Response 201 (Value (JObj [''id'' \<mapsto> JNum 1, ''name'' \<mapsto> JStr ''Go''])),
          disk [chess, JObj [''id'' \<mapsto> JNum 1, ''name'' \<mapsto> JStr ''Go'']] [])"
  by (simp add: post_product_def readData_disk chess_def Math_max_spread_def Math_max_def
      disk_max_arguments writeData_ok disk_writable disk_write_products Let_def)

text \<open>
  Claim C2. The claim: every create gives id 1 on the empty collection, and \<open>M + 1\<close> on a
  collection whose largest id is \<open>M\<close>. For the reason given under C1 this fails when the body
  has an id: on the empty collection a body with id 7 gives a record of id 7, and on a
  collection whose largest id is 1 a body with id 5 gives a record of id 5. For a body
  without an id the created record has the id \<open>next_id\<close>, as the theorem of C7 states.
\<close>

theorem post_product_id_not_next:
  "post_product cv (disk [] []) (JObj [''id'' \<mapsto> JNum 7, ''name'' \<mapsto> JStr ''Go'']) =
     Inr (Response 201 (Value (JObj [''id'' \<mapsto> JNum 7, ''name'' \<mapsto> JStr ''Go''])),
          disk [JObj [''id'' \<mapsto> JNum 7, ''name'' \<mapsto> JStr ''Go'']] []) \<and>
   post_product cv (disk [chess] []) (JObj [''id'' \<mapsto> JNum 5, ''name'' \<mapsto> JStr ''Go'']) =
     Inr (Response 201 (Value (JObj [''id'' \<mapsto> JNum 5, ''name'' \<mapsto> JStr ''Go''])),
          disk [chess, JObj [''id'' \<mapsto> JNum 5, ''name'' \<mapsto> JStr ''Go'']] [])"
  by (simp add: post_product_def readData_disk chess_def Math_max_spread_def Math_max_def
      disk_max_arguments writeData_ok disk_writable disk_write_products Let_def)

text \<open>
  Claim C3. When the record at position \<open>i\<close> is the first one that matches the id, updating a
  product or a user answers 200 with a record \<open>r\<close> whose id is the id of the old record and
  whose every other property is that of the body where the body has it, and that of the old
  record where the body has not. When the file can be written, the stored collection is the
  old one with \<open>r\<close> at position \<open>i\<close>.
\<close>

theorem update_merges_body_over_record:
  "(readData w dataPath = Inr (JArr xs, w1) \<and> i < length xs \<and> xs ! i = JObj old \<and>
    product_matches rid (xs ! i) = Inr True \<and>
    (\<forall>j<i. product_matches rid (xs ! j) = Inr False) \<longrightarrow>
      (\<exists>r w'. put_product w rid body = Inr (Response 200 (Value (JObj r)), w') \<and>
         r ''id'' = old ''id'' \<and>
         (\<forall>k. k \<noteq> ''id'' \<longrightarrow>
            r k = (case own_props body k of Some v \<Rightarrow> Some v | None \<Rightarrow> old k)) \<and>
         (\<not> unwritable w dataPath \<longrightarrow>
            files w' dataPath = Some (Serialized (JArr (xs[i := JObj r])))))) \<and>
   (readData w usersPath = Inr (JArr ys, w2) \<and> n < length ys \<and> ys ! n = JObj old' \<and>
    user_matches rid (ys ! n) = Inr True \<and>
    (\<forall>j<n. user_matches rid (ys ! j) = Inr False) \<longrightarrow>
      (\<exists>r w'. put_user w rid body = Inr (Response 200 (Value (JObj r)), w') \<and>
         r ''id'' = old' ''id'' \<and>
         (\<forall>k. k \<noteq> ''id'' \<longrightarrow>
            r k = (case own_props body k of Some v \<Rightarrow> Some v | None \<Rightarrow> old' k)) \<and>
         (\<not> unwritable w usersPath \<longrightarrow>
            files w' usersPath = Some (Serialized (JArr (ys[n := JObj r]))))))"
proof (intro conjI impI)
  assume h: "readData w dataPath = Inr (JArr xs, w1) \<and> i < length xs \<and> xs ! i = JObj old \<and>
    product_matches rid (xs ! i) = Inr True \<and>
    (\<forall>j<i. product_matches rid (xs ! j) = Inr False)"
  define r where "r = (old ++ own_props body)(''id'' := old ''id'')"
  from h r_def obtain w' where
    "put_product w rid body = Inr (Response 200 (Value (JObj r)), w')"
    "files w' = (if unwritable w dataPath then files w
                 else (files w)(dataPath \<mapsto> Serialized (JArr (xs[i := JObj r]))))"
    using put_product_hit_world [of w xs w1 i old rid r body] by blast
  with merged_fields [OF r_def]
  show "\<exists>r w'. put_product w rid body = Inr (Response 200 (Value (JObj r)), w') \<and>
         r ''id'' = old ''id'' \<and>
         (\<forall>k. k \<noteq> ''id'' \<longrightarrow>
            r k = (case own_props body k of Some v \<Rightarrow> Some v | None \<Rightarrow> old k)) \<and>
         (\<not> unwritable w dataPath \<longrightarrow>
            files w' dataPath = Some (Serialized (JArr (xs[i := JObj r]))))"
    by (intro exI [of _ r] exI [of _ w']) simp
next
  assume h: "readData w usersPath = Inr (JArr ys, w2) \<and> n < length ys \<and> ys ! n = JObj old' \<and>
    user_matches rid (ys ! n) = Inr True \<and>
    (\<forall>j<n. user_matches rid (ys ! j) = Inr False)"
  define r where "r = (old' ++ own_props body)(''id'' := old' ''id'')"
  from h r_def obtain w' where
    "put_user w rid body = Inr (Response 200 (Value (JObj r)), w')"
    "files w' = (if unwritable w usersPath then files w
                 else (files w)(usersPath \<mapsto> Serialized (JArr (ys[n := JObj r]))))"
    using put_user_hit_world [of w ys w2 n old' rid r body] by blast
  with merged_fields [OF r_def]
  show "\<exists>r w'. put_user w rid body = Inr (Response 200 (Value (JObj r)), w') \<and>
         r ''id'' = old' ''id'' \<and>
         (\<forall>k. k \<noteq> ''id'' \<longrightarrow>
            r k = (case own_props body k of Some v \<Rightarrow> Some v | None \<Rightarrow> old' k)) \<and>
         (\<not> unwritable w usersPath \<longrightarrow>
            files w' usersPath = Some (Serialized (JArr (ys[n := JObj r]))))"
    by (intro exI [of _ r] exI [of _ w']) simp
qed

theorem update_merges_body_over_record_witness:
  "(\<exists>r w'. put_product (disk [chess, go] [alice]) ''12''
              (JObj [''id'' \<mapsto> JNum 999, ''name'' \<mapsto> JStr ''Baduk'', ''price'' \<mapsto> JNum 500]) =
              Inr (Response 200 (Value (JObj r)), w') \<and>
      r ''id'' = Some (JNum 12) \<and> r ''name'' = Some (JStr ''Baduk'') \<and>
      r ''price'' = Some (JNum 500) \<and>
      files w' dataPath = Some (Serialized (JArr [chess, JObj r]))) \<and>
   (\<exists>r w'. put_user (disk [chess, go] [alice]) ''a1b2c3''
              (JObj [''id'' \<mapsto> JStr ''zzzzzz'', ''age'' \<mapsto> JNum 31]) =
              Inr (Response 200 (Value (JObj r)), w') \<and>
      r ''id'' = Some (JStr ''a1b2c3'') \<and> r ''name'' = Some (JStr ''Alice'') \<and>
      r ''age'' = Some (JNum 31) \<and>
      files w' usersPath = Some (Serialized (JArr [JObj r])))"
proof -
  let ?D = "disk [chess, go] [alice]"
  let ?pb = "JObj [''id'' \<mapsto> JNum 999, ''name'' \<mapsto> JStr ''Baduk'', ''price'' \<mapsto> JNum 500]"
  let ?ub = "JObj [''id'' \<mapsto> JStr ''zzzzzz'', ''age'' \<mapsto> JNum 31]"
  let ?go = "[''id'' \<mapsto> JNum 12, ''name'' \<mapsto> JStr ''Go'']"
  let ?al = "[''id'' \<mapsto> JStr ''a1b2c3'', ''name'' \<mapsto> JStr ''Alice'', ''age'' \<mapsto> JNum 30]"
  have p: "readData ?D dataPath = Inr (JArr [chess, go], ?D) \<and> 1 < length [chess, go] \<and>
      [chess, go] ! 1 = JObj ?go \<and> product_matches ''12'' ([chess, go] ! 1) = Inr True \<and>
      (\<forall>j<1. product_matches ''12'' ([chess, go] ! j) = Inr False)"
    by (simp add: readData_disk matches_examples) (simp add: go_def)
  have u: "readData ?D usersPath = Inr (JArr [alice], ?D) \<and> 0 < length [alice] \<and>
      [alice] ! 0 = JObj ?al \<and> user_matches ''a1b2c3'' ([alice] ! 0) = Inr True \<and>
      (\<forall>j<0. user_matches ''a1b2c3'' ([alice] ! j) = Inr False)"
    by (simp add: readData_disk matches_examples) (simp add: alice_def)
  have w: "\<not> unwritable ?D dataPath" "\<not> unwritable ?D usersPath"
    by (simp_all add: disk_writable)
  note t1 = update_merges_body_over_record [of ?D "[chess, go]" ?D 1 ?go "''12''" ?pb,
      THEN conjunct1]
  note t2 = update_merges_body_over_record [of ?D _ _ _ _ "''a1b2c3''" ?ub "[alice]" ?D 0 ?al,
      THEN conjunct2]
  from t1 p w obtain r w' where
    r: "put_product ?D ''12'' ?pb = Inr (Response 200 (Value (JObj r)), w')"
      "r ''id'' = ?go ''id''"
      "\<forall>k. k \<noteq> ''id'' \<longrightarrow>
         r k = (case own_props ?pb k of Some v \<Rightarrow> Some v | None \<Rightarrow> ?go k)"
      "files w' dataPath = Some (Serialized (JArr ([chess, go][1 := JObj r])))"
    by blast
  from r(3) have "r ''name'' = Some (JStr ''Baduk'')" "r ''price'' = Some (JNum 500)"
    by simp_all
  with r have first: "\<exists>r w'. put_product ?D ''12'' ?pb = Inr (Response 200 (Value (JObj r)), w') \<and>
      r ''id'' = Some (JNum 12) \<and> r ''name'' = Some (JStr ''Baduk'') \<and>
      r ''price'' = Some (JNum 500) \<and>
      files w' dataPath = Some (Serialized (JArr [chess, JObj r]))"
    by (intro exI [of _ r] exI [of _ w']) simp
  from t2 u w obtain s v' where
    s: "put_user ?D ''a1b2c3'' ?ub = Inr (Response 200 (Value (JObj s)), v')"
      "s ''id'' = ?al ''id''"
      "\<forall>k. k \<noteq> ''id'' \<longrightarrow>
         s k = (case own_props ?ub k of Some v \<Rightarrow> Some v | None \<Rightarrow> ?al k)"
      "files v' usersPath = Some (Serialized (JArr ([alice][0 := JObj s])))"
    by blast
  from s(3) have "s ''name'' = Some (JStr ''Alice'')" "s ''age'' = Some (JNum 31)"
    by simp_all
  with s have second: "\<exists>r w'. put_user ?D ''a1b2c3'' ?ub = Inr (Response 200 (Value (JObj r)), w') \<and>
      r ''id'' = Some (JStr ''a1b2c3'') \<and> r ''name'' = Some (JStr ''Alice'') \<and>
      r ''age'' = Some (JNum 31) \<and>
      files w' usersPath = Some (Serialized (JArr [JObj r]))"
    by (intro exI [of _ s] exI [of _ v']) simp
  from first second show ?thesis by blast
qed

text \<open>
  Claim C4. When the path parameter parses to \<^verbatim>\<open>NaN\<close>, reading, updating and deleting a
  product answer 404, on every array of records (an array with no \<^verbatim>\<open>null\<close> element) and
  also when the file cannot be read, since \<open>readData\<close> then gives the empty array.
\<close>

theorem unparsable_id_not_found:
  assumes "parseInt rid = NaN"
    and "readData w dataPath = Inr (JArr xs, w1)"
    and "JNull \<notin> set xs"
  shows "get_product w rid = Inr (Response 404 (Message ProductNotFound), w1) \<and>
         put_product w rid body = Inr (Response 404 (Message ProductNotFound), w1) \<and>
         delete_product w rid = Inr (Response 404 (Message ProductNotFound), w1)"
proof -
  have "\<forall>x\<in>set xs. product_matches rid x = Inr False"
    using assms(1,3) by (auto intro: product_matches_NaN)
  with assms(2) show ?thesis
    by (simp add: get_product_miss put_product_miss delete_product_miss)
qed

theorem unparsable_id_not_found_witness:
  "parseInt ''abc'' = NaN \<and>
   readData (disk [chess, go] []) dataPath = Inr (JArr [chess, go], disk [chess, go] []) \<and>
   JNull \<notin> set [chess, go] \<and>
   get_product (disk [chess, go] []) ''abc'' =
     Inr (Response 404 (Message ProductNotFound), disk [chess, go] []) \<and>
   put_product (disk [chess, go] []) ''abc'' (JObj [''name'' \<mapsto> JStr ''Shogi'']) =
     Inr (Response 404 (Message ProductNotFound), disk [chess, go] []) \<and>
   delete_product (disk [chess, go] []) ''abc'' =
     Inr (Response 404 (Message ProductNotFound), disk [chess, go] [])"
proof -
  have a: "parseInt ''abc'' = NaN"
    by (simp add: parseInt_def is_white_space_def radix_digit_def digit_of_def)
  have b: "readData (disk [chess, go] []) dataPath = Inr (JArr [chess, go], disk [chess, go] [])"
    by (rule readData_disk)
  have c: "JNull \<notin> set [chess, go]"
    by (simp add: chess_def go_def)
  from a b c unparsable_id_not_found [OF a b c, of "JObj [''name'' \<mapsto> JStr ''Shogi'']"]
  show ?thesis by simp
qed

text \<open>
  Claim C5. \<open>readData\<close> always returns a value and never throws. When the file holds the
  serialisation of a value, that value is returned and the world is unchanged. When the file
  is missing, unreadable or not JSON, the empty array is returned and the error is only
  written to the console.
\<close>

theorem readData_parses_or_degrades:
  "(\<exists>v w'. readData w filePath = Inr (v, w')) \<and>
   (files w filePath = Some (Serialized v) \<longrightarrow> readData w filePath = Inr (v, w)) \<and>
   (files w filePath = None \<or> files w filePath = Some Malformed \<longrightarrow>
      (\<exists>e. readData w filePath =
             Inr (JArr [], w\<lparr>console := console w @ [ReadError filePath e]\<rparr>)))"
proof (intro conjI impI)
  show "\<exists>v w'. readData w filePath = Inr (v, w')"
    by (cases rule: readData_cases [of w filePath]) auto
next
  assume "files w filePath = Some (Serialized v)"
  then show "readData w filePath = Inr (v, w)"
    by (rule readData_serialized)
next
  assume "files w filePath = None \<or> files w filePath = Some Malformed"
  then show "\<exists>e. readData w filePath =
      Inr (JArr [], w\<lparr>console := console w @ [ReadError filePath e]\<rparr>)"
    using readData_missing [of w filePath] readData_malformed [of w filePath]
    by (auto simp: console_error_def)
qed

theorem readData_parses_or_degrades_witness:
  "files (disk [chess] []) dataPath = Some (Serialized (JArr [chess])) \<and>
   readData (disk [chess] []) dataPath = Inr (JArr [chess], disk [chess] []) \<and>
   files no_disk dataPath = None \<and>
   (\<exists>e. readData no_disk dataPath =
          Inr (JArr [], no_disk\<lparr>console := console no_disk @ [ReadError dataPath e]\<rparr>))"
proof -
  have a: "files (disk [chess] []) dataPath = Some (Serialized (JArr [chess]))"
    by (simp add: disk_def)
  have b: "files no_disk dataPath = None"
    by (simp add: no_disk_def)
  from a b
    readData_parses_or_degrades [of "disk [chess] []" dataPath "JArr [chess]"]
    readData_parses_or_degrades [of no_disk dataPath]
  show ?thesis by blast
qed

text \<open>
  Claim C6. Deleting a product or a user that no record matches answers 404, and answers 404
  again when repeated. When exactly one record matches, at position \<open>i\<close>, and the file can be
  written, the delete answers 200 and stores the collection without the record at \<open>i\<close>, which
  is one record shorter, and a second delete of the same id answers 404.
\<close>

theorem delete_is_idempotent_in_effect:
  "(readData w dataPath = Inr (JArr xs, w1) \<and>
      (\<forall>x\<in>set xs. product_matches rid x = Inr False) \<longrightarrow>
        (\<exists>w'. delete_product w rid = Inr (Response 404 (Message ProductNotFound), w') \<and>
           (\<exists>w''. delete_product w' rid = Inr (Response 404 (Message ProductNotFound), w'')))) \<and>
   (readData w dataPath = Inr (JArr xs, w1) \<and> \<not> unwritable w dataPath \<and> i < length xs \<and>
      product_matches rid (xs ! i) = Inr True \<and>
      (\<forall>j<length xs. j \<noteq> i \<longrightarrow> product_matches rid (xs ! j) = Inr False) \<longrightarrow>
        (\<exists>w'. delete_product w rid = Inr (Response 200 (Message ProductDeleted), w') \<and>
           files w' dataPath = Some (Serialized (JArr (take i xs @ drop (Suc i) xs))) \<and>
           length (take i xs @ drop (Suc i) xs) = length xs - 1 \<and>
           delete_product w' rid = Inr (Response 404 (Message ProductNotFound), w'))) \<and>
   (readData w usersPath = Inr (JArr ys, w2) \<and>
      (\<forall>y\<in>set ys. user_matches rid y = Inr False) \<longrightarrow>
        (\<exists>w'. delete_user w rid = Inr (Response 404 (Message UserNotFound), w') \<and>
           (\<exists>w''. delete_user w' rid = Inr (Response 404 (Message UserNotFound), w'')))) \<and>
   (readData w usersPath = Inr (JArr ys, w2) \<and> \<not> unwritable w usersPath \<and> n < length ys \<and>
      user_matches rid (ys ! n) = Inr True \<and>
      (\<forall>j<length ys. j \<noteq> n \<longrightarrow> user_matches rid (ys ! j) = Inr False) \<longrightarrow>
        (\<exists>w'. delete_user w rid = Inr (Response 200 (Message UserDeleted), w') \<and>
           files w' usersPath = Some (Serialized (JArr (take n ys @ drop (Suc n) ys))) \<and>
           length (take n ys @ drop (Suc n) ys) = length ys - 1 \<and>
           delete_user w' rid = Inr (Response 404 (Message UserNotFound), w')))"
proof (intro conjI impI)
  assume h: "readData w dataPath = Inr (JArr xs, w1) \<and>
      (\<forall>x\<in>set xs. product_matches rid x = Inr False)"
  then obtain w1' where "readData w1 dataPath = Inr (JArr xs, w1')"
    using readData_again by blast
  with h show "\<exists>w'. delete_product w rid = Inr (Response 404 (Message ProductNotFound), w') \<and>
      (\<exists>w''. delete_product w' rid = Inr (Response 404 (Message ProductNotFound), w''))"
    by (auto simp: delete_product_miss)
next
  assume h: "readData w usersPath = Inr (JArr ys, w2) \<and>
      (\<forall>y\<in>set ys. user_matches rid y = Inr False)"
  then obtain w2' where "readData w2 usersPath = Inr (JArr ys, w2')"
    using readData_again by blast
  with h show "\<exists>w'. delete_user w rid = Inr (Response 404 (Message UserNotFound), w') \<and>
      (\<exists>w''. delete_user w' rid = Inr (Response 404 (Message UserNotFound), w''))"
    by (auto simp: delete_user_miss)
next
  assume h: "readData w dataPath = Inr (JArr xs, w1) \<and> \<not> unwritable w dataPath \<and>
      i < length xs \<and> product_matches rid (xs ! i) = Inr True \<and>
      (\<forall>j<length xs. j \<noteq> i \<longrightarrow> product_matches rid (xs ! j) = Inr False)"
  let ?zs = "take i xs @ drop (Suc i) xs"
  from h have before: "\<forall>j<i. product_matches rid (xs ! j) = Inr False"
    by auto
  with h obtain w' where
    d: "delete_product w rid = Inr (Response 200 (Message ProductDeleted), w')"
    and f: "files w' = (files w)(dataPath \<mapsto> Serialized (JArr ?zs))"
    using delete_product_hit_world [of w xs w1 i rid] by auto
  from f have r: "readData w' dataPath = Inr (JArr ?zs, w')"
    by (simp add: readData_serialized)
  have "\<forall>y\<in>set ?zs. product_matches rid y = Inr False"
    using h in_set_without_nth [of _ i xs] by blast
  with r have "delete_product w' rid = Inr (Response 404 (Message ProductNotFound), w')"
    by (rule delete_product_miss)
  with d f h
  show "\<exists>w'. delete_product w rid = Inr (Response 200 (Message ProductDeleted), w') \<and>
      files w' dataPath = Some (Serialized (JArr ?zs)) \<and>
      length ?zs = length xs - 1 \<and>
      delete_product w' rid = Inr (Response 404 (Message ProductNotFound), w')"
    using without_nth_frame(1) [of i xs] by (intro exI [of _ w']) simp
next
  assume h: "readData w usersPath = Inr (JArr ys, w2) \<and> \<not> unwritable w usersPath \<and>
      n < length ys \<and> user_matches rid (ys ! n) = Inr True \<and>
      (\<forall>j<length ys. j \<noteq> n \<longrightarrow> user_matches rid (ys ! j) = Inr False)"
  let ?zs = "take n ys @ drop (Suc n) ys"
  from h have before: "\<forall>j<n. user_matches rid (ys ! j) = Inr False"
    by auto
  with h obtain w' where
    d: "delete_user w rid = Inr (Response 200 (Message UserDeleted), w')"
    and f: "files w' = (files w)(usersPath \<mapsto> Serialized (JArr ?zs))"
    using delete_user_hit_world [of w ys w2 n rid] by auto
  from f have r: "readData w' usersPath = Inr (JArr ?zs, w')"
    by (simp add: readData_serialized)
  have "\<forall>y\<in>set ?zs. user_matches rid y = Inr False"
    using h in_set_without_nth [of _ n ys] by blast
  with r have "delete_user w' rid = Inr (Response 404 (Message UserNotFound), w')"
    by (rule delete_user_miss)
  with d f h
  show "\<exists>w'. delete_user w rid = Inr (Response 200 (Message UserDeleted), w') \<and>
      files w' usersPath = Some (Serialized (JArr ?zs)) \<and>
      length ?zs = length ys - 1 \<and>
      delete_user w' rid = Inr (Response 404 (Message UserNotFound), w')"
    using without_nth_frame(1) [of n ys] by (intro exI [of _ w']) simp
qed

theorem delete_is_idempotent_in_effect_witness:
  "(\<exists>w'. delete_product (disk [chess, go] [alice]) ''99'' =
           Inr (Response 404 (Message ProductNotFound), w') \<and>
      (\<exists>w''. delete_product w' ''99'' = Inr (Response 404 (Message ProductNotFound), w''))) \<and>
   (\<exists>w'. delete_product (disk [chess, go] [alice]) ''12'' =
           Inr (Response 200 (Message ProductDeleted), w') \<and>
      files w' dataPath = Some (Serialized (JArr [chess])) \<and>
      delete_product w' ''12'' = Inr (Response 404 (Message ProductNotFound), w')) \<and>
   (\<exists>w'. delete_user (disk [chess, go] [alice]) ''99'' =
           Inr (Response 404 (Message UserNotFound), w') \<and>
      (\<exists>w''. delete_user w' ''99'' = Inr (Response 404 (Message UserNotFound), w''))) \<and>
   (\<exists>w'. delete_user (disk [chess, go] [alice]) ''a1b2c3'' =
           Inr (Response 200 (Message UserDeleted), w') \<and>
      files w' usersPath = Some (Serialized (JArr [])) \<and>
      delete_user w' ''a1b2c3'' = Inr (Response 404 (Message UserNotFound), w'))"
proof -
  let ?D = "disk [chess, go] [alice]"
  have p: "readData ?D dataPath = Inr (JArr [chess, go], ?D)"
    and u: "readData ?D usersPath = Inr (JArr [alice], ?D)"
    by (rule readData_disk)+
  have w: "\<not> unwritable ?D dataPath" "\<not> unwritable ?D usersPath"
    by (simp_all add: disk_writable)
  have a: "\<forall>x\<in>set [chess, go]. product_matches ''99'' x = Inr False"
    by (simp add: matches_examples)
  have b: "(1::nat) < length [chess, go] \<and> product_matches ''12'' ([chess, go] ! 1) = Inr True \<and>
      (\<forall>j<length [chess, go]. j \<noteq> 1 \<longrightarrow> product_matches ''12'' ([chess, go] ! j) = Inr False)"
    by (simp add: matches_examples less_Suc_eq)
  have c: "\<forall>y\<in>set [alice]. user_matches ''99'' y = Inr False"
    by (simp add: matches_examples)
  have d: "(0::nat) < length [alice] \<and> user_matches ''a1b2c3'' ([alice] ! 0) = Inr True \<and>
      (\<forall>j<length [alice]. j \<noteq> 0 \<longrightarrow> user_matches ''a1b2c3'' ([alice] ! j) = Inr False)"
    by (simp add: matches_examples)
  note t = delete_is_idempotent_in_effect
  have 1: "\<exists>w'. delete_product ?D ''99'' = Inr (Response 404 (Message ProductNotFound), w') \<and>
      (\<exists>w''. delete_product w' ''99'' = Inr (Response 404 (Message ProductNotFound), w''))"
    using t [of ?D "[chess, go]" ?D "''99''", THEN conjunct1] p a by blast
  have 2: "\<exists>w'. delete_product ?D ''12'' = Inr (Response 200 (Message ProductDeleted), w') \<and>
      files w' dataPath = Some (Serialized (JArr [chess])) \<and>
      delete_product w' ''12'' = Inr (Response 404 (Message ProductNotFound), w')"
    using t [of ?D "[chess, go]" ?D "''12''" 1, THEN conjunct2, THEN conjunct1] p w b
    by auto
  have 3: "\<exists>w'. delete_user ?D ''99'' = Inr (Response 404 (Message UserNotFound), w') \<and>
      (\<exists>w''. delete_user w' ''99'' = Inr (Response 404 (Message UserNotFound), w''))"
    using t [of ?D _ _ "''99''" _ "[alice]" ?D, THEN conjunct2, THEN conjunct2, THEN conjunct1]
      u c by blast
  have 4: "\<exists>w'. delete_user ?D ''a1b2c3'' = Inr (Response 200 (Message UserDeleted), w') \<and>
      files w' usersPath = Some (Serialized (JArr [])) \<and>
      delete_user w' ''a1b2c3'' = Inr (Response 404 (Message UserNotFound), w')"
    using t [of ?D _ _ "''a1b2c3''" _ "[alice]" ?D 0,
        THEN conjunct2, THEN conjunct2, THEN conjunct2] u w d
    by auto
  from 1 2 3 4 show ?thesis by blast
qed



text \<open>
  Claim C8. When no record of the collection matches the id, updating and deleting a product
  or a user answer 404 and write nothing: the world after the request is the world after the
  read, and its files are those before the request.
\<close>

theorem not_found_writes_nothing:
  "(readData w dataPath = Inr (JArr xs, w1) \<and>
      (\<forall>x\<in>set xs. product_matches rid x = Inr False) \<longrightarrow>
        put_product w rid body = Inr (Response 404 (Message ProductNotFound), w1) \<and>
        delete_product w rid = Inr (Response 404 (Message ProductNotFound), w1) \<and>
        files w1 = files w) \<and>
   (readData w usersPath = Inr (JArr ys, w2) \<and>
      (\<forall>y\<in>set ys. user_matches rid y = Inr False) \<longrightarrow>
        put_user w rid body = Inr (Response 404 (Message UserNotFound), w2) \<and>
        delete_user w rid = Inr (Response 404 (Message UserNotFound), w2) \<and>
        files w2 = files w)"
  using readData_frame [of w dataPath "JArr xs" w1] readData_frame [of w usersPath "JArr ys" w2]
  by (simp add: put_product_miss delete_product_miss put_user_miss delete_user_miss)

theorem not_found_writes_nothing_witness:
  "readData (disk [chess, go] [alice]) dataPath = Inr (JArr [chess, go], disk [chess, go] [alice]) \<and>
   put_product (disk [chess, go] [alice]) ''99'' (JObj [''name'' \<mapsto> JStr ''Shogi'']) =
     Inr (Response 404 (Message ProductNotFound), disk [chess, go] [alice]) \<and>
   delete_product (disk [chess, go] [alice]) ''99'' =
     Inr (Response 404 (Message ProductNotFound), disk [chess, go] [alice]) \<and>
   readData (disk [chess, go] [alice]) usersPath = Inr (JArr [alice], disk [chess, go] [alice]) \<and>
   put_user (disk [chess, go] [alice]) ''99'' (JObj [''name'' \<mapsto> JStr ''Shogi'']) =
     Inr (Response 404 (Message UserNotFound), disk [chess, go] [alice]) \<and>
   delete_user (disk [chess, go] [alice]) ''99'' =
     Inr (Response 404 (Message UserNotFound), disk [chess, go] [alice])"
proof -
  have a: "readData (disk [chess, go] [alice]) dataPath =
      Inr (JArr [chess, go], disk [chess, go] [alice])"
    by (rule readData_disk)
  have b: "\<forall>x\<in>set [chess, go]. product_matches ''99'' x = Inr False"
    by (simp add: matches_examples)
  have c: "readData (disk [chess, go] [alice]) usersPath =
      Inr (JArr [alice], disk [chess, go] [alice])"
    by (rule readData_disk)
  have d: "\<forall>y\<in>set [alice]. user_matches ''99'' y = Inr False"
    by (simp add: matches_examples)
  from a b c d
    not_found_writes_nothing [of "disk [chess, go] [alice]" "[chess, go]"
      "disk [chess, go] [alice]" "''99''" "JObj [''name'' \<mapsto> JStr ''Shogi'']"
      "[alice]" "disk [chess, go] [alice]"]
  show ?thesis by blast
qed

text \<open>
  Claim C9. A path parameter made of a non-empty run of decimal digits followed by a
  character that is not a decimal digit (the prefixes \<^verbatim>\<open>0x\<close> and \<^verbatim>\<open>0X\<close> apart, which
  start a hexadecimal number) parses to the number the digits denote, when this is below
  \<open>2 ^ 53\<close>. When the first record whose id is that number is at position \<open>i\<close>, reading a
  product answers 200 with that record; updating answers 200 with that record merged with
  the body and stores it at position \<open>i\<close>; deleting answers 200 and stores the collection
  without the record at position \<open>i\<close>. (When the file cannot be written, the files stay as
  they were.)
\<close>

theorem digit_prefix_id_matches:
  assumes "ds \<noteq> []" and "\<forall>c\<in>set ds. radix_digit 10 c"
    and "rest \<noteq> []" and "\<not> radix_digit 10 (hd rest)"
    and "\<not> (ds = ''0'' \<and> (hd rest = CHR ''x'' \<or> hd rest = CHR ''X''))"
    and "digits_value 10 0 ds < 2 ^ 53"
    and "readData w dataPath = Inr (JArr xs, w1)"
    and "i < length xs" and "xs ! i = JObj m"
    and "m ''id'' = Some (JNum (of_nat (digits_value 10 0 ds)))"
    and "\<forall>j<i. xs ! j \<noteq> JNull \<and> number_id (xs ! j) \<noteq> Some (of_nat (digits_value 10 0 ds))"
  shows "parseInt (ds @ rest) = Finite (of_nat (digits_value 10 0 ds)) \<and>
     get_product w (ds @ rest) = Inr (Response 200 (Value (JObj m)), w1) \<and>
     (\<exists>w'. put_product w (ds @ rest) body =
          Inr (Response 200 (Value (JObj ((m ++ own_props body)(''id'' := m ''id'')))), w') \<and>
        files w' =
          (if unwritable w dataPath then files w
           else (files w)(dataPath \<mapsto>
             Serialized (JArr (xs[i := JObj ((m ++ own_props body)(''id'' := m ''id''))]))))) \<and>
     (\<exists>w'. delete_product w (ds @ rest) = Inr (Response 200 (Message ProductDeleted), w') \<and>
        files w' =
          (if unwritable w dataPath then files w
           else (files w)(dataPath \<mapsto> Serialized (JArr (take i xs @ drop (Suc i) xs)))))"
proof -
  have parse: "parseInt (ds @ rest) = Finite (of_nat (digits_value 10 0 ds))"
    using assms(1-6) by (intro parseInt_decimal_prefix_safe) auto
  with assms(9,10) have hit: "product_matches (ds @ rest) (xs ! i) = Inr True"
    by (simp add: product_matches_JObj)
  have before: "\<forall>j<i. product_matches (ds @ rest) (xs ! j) = Inr False"
    using assms(11) not_matching_number [OF parse] by blast
  have g: "get_product w (ds @ rest) = Inr (Response 200 (Value (JObj m)), w1)"
    using get_product_hit [OF assms(7,8) hit before] assms(9) by simp
  from put_product_hit_world [OF assms(7,8,9) hit before refl, of body]
  have p: "\<exists>w'. put_product w (ds @ rest) body =
          Inr (Response 200 (Value (JObj ((m ++ own_props body)(''id'' := m ''id'')))), w') \<and>
        files w' =
          (if unwritable w dataPath then files w
           else (files w)(dataPath \<mapsto>
             Serialized (JArr (xs[i := JObj ((m ++ own_props body)(''id'' := m ''id''))]))))"
    by blast
  from delete_product_hit_world [OF assms(7,8) hit before]
  have d: "\<exists>w'. delete_product w (ds @ rest) = Inr (Response 200 (Message ProductDeleted), w') \<and>
        files w' =
          (if unwritable w dataPath then files w
           else (files w)(dataPath \<mapsto> Serialized (JArr (take i xs @ drop (Suc i) xs))))"
    by blast
  from parse g p d show ?thesis by blast
qed

theorem digit_prefix_id_matches_witness:
  "parseInt ''12abc'' = Finite 12 \<and>
   get_product (disk [chess, go] [alice]) ''12abc'' =
     Inr (Response 200 (Value go), disk [chess, go] [alice]) \<and>
   (\<exists>w'. put_product (disk [chess, go] [alice]) ''12abc'' (JObj [''name'' \<mapsto> JStr ''Baduk'']) =
        Inr (Response 200 (Value (JObj [''id'' \<mapsto> JNum 12, ''name'' \<mapsto> JStr ''Baduk''])), w') \<and>
      files w' dataPath =
        Some (Serialized (JArr [chess, JObj [''id'' \<mapsto> JNum 12, ''name'' \<mapsto> JStr ''Baduk'']]))) \<and>
   (\<exists>w'. delete_product (disk [chess, go] [alice]) ''12abc'' =
        Inr (Response 200 (Message ProductDeleted), w') \<and>
      files w' dataPath = Some (Serialized (JArr [chess])))"
proof -
  let ?D = "disk [chess, go] [alice]"
  let ?go = "[''id'' \<mapsto> JNum 12, ''name'' \<mapsto> JStr ''Go'']"
  let ?pb = "JObj [''name'' \<mapsto> JStr ''Baduk'']"
  have 1: "''12'' \<noteq> []" by simp
  have 2: "\<forall>c\<in>set ''12''. radix_digit 10 c" by (simp add: radix_digit_10)
  have 3: "''abc'' \<noteq> []" by simp
  have 4: "\<not> radix_digit 10 (hd ''abc'')" by (simp add: radix_digit_10)
  have 5: "\<not> (''12'' = ''0'' \<and> (hd ''abc'' = CHR ''x'' \<or> hd ''abc'' = CHR ''X''))" by simp
  have 6: "digits_value 10 0 ''12'' < 2 ^ 53" unfolding digits_value_12 by simp
  have 7: "readData ?D dataPath = Inr (JArr [chess, go], ?D)" by (rule readData_disk)
  have 8: "1 < length [chess, go]" by simp
  have 9: "[chess, go] ! 1 = JObj ?go" by (simp add: go_def)
  have 10: "?go ''id'' = Some (JNum (of_nat (digits_value 10 0 ''12'')))"
    unfolding digits_value_12 by simp
  have 11: "\<forall>j<1. [chess, go] ! j \<noteq> JNull \<and>
      number_id ([chess, go] ! j) \<noteq> Some (of_nat (digits_value 10 0 ''12''))"
    unfolding digits_value_12 by (simp add: chess_def)
  have merged: "(?go ++ own_props ?pb)(''id'' := ?go ''id'') =
      [''id'' \<mapsto> JNum 12, ''name'' \<mapsto> JStr ''Baduk'']"
    by (auto simp: fun_eq_iff map_add_def)
  have w: "\<not> unwritable ?D dataPath" by (rule disk_writable)
  have go: "JObj ?go = go" by (simp add: go_def)
  note t = digit_prefix_id_matches [OF 1 2 3 4 5 6 7 8 9 10 11, of ?pb]
  from t have a: "parseInt ''12abc'' = Finite 12"
    unfolding digits_value_12 by simp
  from t have b: "get_product ?D ''12abc'' = Inr (Response 200 (Value go), ?D)"
    unfolding go by simp
  from t obtain w' where
    c: "put_product ?D (''12'' @ ''abc'') ?pb =
        Inr (Response 200 (Value (JObj ((?go ++ own_props ?pb)(''id'' := ?go ''id'')))), w')"
    and cf: "files w' =
        (if unwritable ?D dataPath then files ?D
         else (files ?D)(dataPath \<mapsto>
           Serialized (JArr ([chess, go][1 := JObj ((?go ++ own_props ?pb)(''id'' := ?go ''id''))]))))"
    by blast
  from t obtain v' where
    d: "delete_product ?D (''12'' @ ''abc'') = Inr (Response 200 (Message ProductDeleted), v')"
    and df: "files v' =
        (if unwritable ?D dataPath then files ?D
         else (files ?D)(dataPath \<mapsto> Serialized (JArr (take 1 [chess, go] @ drop (Suc 1) [chess, go]))))"
    by blast
  from c have c': "put_product ?D ''12abc'' ?pb =
      Inr (Response 200 (Value (JObj [''id'' \<mapsto> JNum 12, ''name'' \<mapsto> JStr ''Baduk''])), w')"
    unfolding merged by simp
  from cf w have cf': "files w' dataPath =
      Some (Serialized (JArr [chess, JObj [''id'' \<mapsto> JNum 12, ''name'' \<mapsto> JStr ''Baduk'']]))"
    unfolding merged by simp
  from d have d': "delete_product ?D ''12abc'' = Inr (Response 200 (Message ProductDeleted), v')"
    by simp
  from df w have df': "files v' dataPath = Some (Serialized (JArr [chess]))"
    by simp
  from a b c' cf' d' df' show ?thesis by blast
qed

text \<open>
  Claim C10. When the record at position \<open>i\<close> is the first that matches and the file can be
  written, an update stores a collection of the same length that holds the returned record at
  position \<open>i\<close> and the old record at every other position; a delete stores a collection one
  record shorter that holds the old records before \<open>i\<close> at their positions and the old
  records after \<open>i\<close> one position earlier. Either leaves every other file as it was. This holds
  for products and for users.
\<close>

theorem update_and_delete_frame:
  "(readData w dataPath = Inr (JArr xs, w1) \<and> \<not> unwritable w dataPath \<and> i < length xs \<and>
      product_matches rid (xs ! i) = Inr True \<and>
      (\<forall>j<i. product_matches rid (xs ! j) = Inr False) \<longrightarrow>
        (\<exists>r zs w'. put_product w rid body = Inr (Response 200 (Value r), w') \<and>
           files w' dataPath = Some (Serialized (JArr zs)) \<and>
           length zs = length xs \<and> zs ! i = r \<and>
           (\<forall>j<length xs. j \<noteq> i \<longrightarrow> zs ! j = xs ! j) \<and>
           (\<forall>p. p \<noteq> dataPath \<longrightarrow> files w' p = files w p)) \<and>
        (\<exists>zs w'. delete_product w rid = Inr (Response 200 (Message ProductDeleted), w') \<and>
           files w' dataPath = Some (Serialized (JArr zs)) \<and>
           length zs = length xs - 1 \<and>
           (\<forall>j<i. zs ! j = xs ! j) \<and>
           (\<forall>j. i \<le> j \<and> j < length xs - 1 \<longrightarrow> zs ! j = xs ! Suc j) \<and>
           (\<forall>p. p \<noteq> dataPath \<longrightarrow> files w' p = files w p))) \<and>
   (readData w usersPath = Inr (JArr ys, w2) \<and> \<not> unwritable w usersPath \<and> n < length ys \<and>
      user_matches rid (ys ! n) = Inr True \<and>
      (\<forall>j<n. user_matches rid (ys ! j) = Inr False) \<longrightarrow>
        (\<exists>r zs w'. put_user w rid body = Inr (Response 200 (Value r), w') \<and>
           files w' usersPath = Some (Serialized (JArr zs)) \<and>
           length zs = length ys \<and> zs ! n = r \<and>
           (\<forall>j<length ys. j \<noteq> n \<longrightarrow> zs ! j = ys ! j) \<and>
           (\<forall>p. p \<noteq> usersPath \<longrightarrow> files w' p = files w p)) \<and>
        (\<exists>zs w'. delete_user w rid = Inr (Response 200 (Message UserDeleted), w') \<and>
           files w' usersPath = Some (Serialized (JArr zs)) \<and>
           length zs = length ys - 1 \<and>
           (\<forall>j<n. zs ! j = ys ! j) \<and>
           (\<forall>j. n \<le> j \<and> j < length ys - 1 \<longrightarrow> zs ! j = ys ! Suc j) \<and>
           (\<forall>p. p \<noteq> usersPath \<longrightarrow> files w' p = files w p)))"
  using put_product_frame [of w xs w1 i rid body] delete_product_frame [of w xs w1 i rid]
    put_user_frame [of w ys w2 n rid body] delete_user_frame [of w ys w2 n rid]
  by blast

theorem update_and_delete_frame_witness:
  "((\<exists>r zs w'. put_product (disk [chess, go] [alice]) ''12'' (JObj [''name'' \<mapsto> JStr ''Baduk'']) =
        Inr (Response 200 (Value r), w') \<and>
      files w' dataPath = Some (Serialized (JArr zs)) \<and>
      length zs = length [chess, go] \<and> zs ! 1 = r \<and>
      (\<forall>j<length [chess, go]. j \<noteq> 1 \<longrightarrow> zs ! j = [chess, go] ! j) \<and>
      (\<forall>p. p \<noteq> dataPath \<longrightarrow> files w' p = files (disk [chess, go] [alice]) p)) \<and>
   (\<exists>zs w'. delete_product (disk [chess, go] [alice]) ''12'' =
        Inr (Response 200 (Message ProductDeleted), w') \<and>
      files w' dataPath = Some (Serialized (JArr zs)) \<and>
      length zs = length [chess, go] - 1 \<and>
      (\<forall>j<1. zs ! j = [chess, go] ! j) \<and>
      (\<forall>j. 1 \<le> j \<and> j < length [chess, go] - 1 \<longrightarrow> zs ! j = [chess, go] ! Suc j) \<and>
      (\<forall>p. p \<noteq> dataPath \<longrightarrow> files w' p = files (disk [chess, go] [alice]) p))) \<and>
   ((\<exists>r zs w'. put_user (disk [chess] [alice, chess]) ''a1b2c3'' (JObj [''age'' \<mapsto> JNum 31]) =
        Inr (Response 200 (Value r), w') \<and>
      files w' usersPath = Some (Serialized (JArr zs)) \<and>
      length zs = length [alice, chess] \<and> zs ! 0 = r \<and>
      (\<forall>j<length [alice, chess]. j \<noteq> 0 \<longrightarrow> zs ! j = [alice, chess] ! j) \<and>
      (\<forall>p. p \<noteq> usersPath \<longrightarrow> files w' p = files (disk [chess] [alice, chess]) p)) \<and>
   (\<exists>zs w'. delete_user (disk [chess] [alice, chess]) ''a1b2c3'' =
        Inr (Response 200 (Message UserDeleted), w') \<and>
      files w' usersPath = Some (Serialized (JArr zs)) \<and>
      length zs = length [alice, chess] - 1 \<and>
      (\<forall>j<0. zs ! j = [alice, chess] ! j) \<and>
      (\<forall>j. 0 \<le> j \<and> j < length [alice, chess] - 1 \<longrightarrow> zs ! j = [alice, chess] ! Suc j) \<and>
      (\<forall>p. p \<noteq> usersPath \<longrightarrow> files w' p = files (disk [chess] [alice, chess]) p)))"
proof -
  let ?D = "disk [chess, go] [alice]"
  let ?E = "disk [chess] [alice, chess]"
  have p: "readData ?D dataPath = Inr (JArr [chess, go], ?D) \<and> \<not> unwritable ?D dataPath \<and>
      1 < length [chess, go] \<and> product_matches ''12'' ([chess, go] ! 1) = Inr True \<and>
      (\<forall>j<1. product_matches ''12'' ([chess, go] ! j) = Inr False)"
    by (simp add: readData_disk matches_examples disk_writable)
  have u: "readData ?E usersPath = Inr (JArr [alice, chess], ?E) \<and> \<not> unwritable ?E usersPath \<and>
      0 < length [alice, chess] \<and> user_matches ''a1b2c3'' ([alice, chess] ! 0) = Inr True \<and>
      (\<forall>j<0. user_matches ''a1b2c3'' ([alice, chess] ! j) = Inr False)"
    by (simp add: readData_disk matches_examples disk_writable)
  from update_and_delete_frame [of ?D "[chess, go]" ?D 1 "''12''"
      "JObj [''name'' \<mapsto> JStr ''Baduk'']", THEN conjunct1] p
  have a: "(\<exists>r zs w'. put_product (disk [chess, go] [alice]) ''12'' (JObj [''name'' \<mapsto> JStr ''Baduk'']) =
        Inr (Response 200 (Value r), w') \<and>
      files w' dataPath = Some (Serialized (JArr zs)) \<and>
      length zs = length [chess, go] \<and> zs ! 1 = r \<and>
      (\<forall>j<length [chess, go]. j \<noteq> 1 \<longrightarrow> zs ! j = [chess, go] ! j) \<and>
      (\<forall>p. p \<noteq> dataPath \<longrightarrow> files w' p = files (disk [chess, go] [alice]) p)) \<and>
   (\<exists>zs w'. delete_product (disk [chess, go] [alice]) ''12'' =
        Inr (Response 200 (Message ProductDeleted), w') \<and>
      files w' dataPath = Some (Serialized (JArr zs)) \<and>
      length zs = length [chess, go] - 1 \<and>
      (\<forall>j<1. zs ! j = [chess, go] ! j) \<and>
      (\<forall>j. 1 \<le> j \<and> j < length [chess, go] - 1 \<longrightarrow> zs ! j = [chess, go] ! Suc j) \<and>
      (\<forall>p. p \<noteq> dataPath \<longrightarrow> files w' p = files (disk [chess, go] [alice]) p))"
    by (rule mp)
  from update_and_delete_frame [of ?E _ _ _ "''a1b2c3''" "JObj [''age'' \<mapsto> JNum 31]"
      "[alice, chess]" ?E 0, THEN conjunct2] u
  have b: "(\<exists>r zs w'. put_user (disk [chess] [alice, chess]) ''a1b2c3'' (JObj [''age'' \<mapsto> JNum 31]) =
        Inr (Response 200 (Value r), w') \<and>
      files w' usersPath = Some (Serialized (JArr zs)) \<and>
      length zs = length [alice, chess] \<and> zs ! 0 = r \<and>
      (\<forall>j<length [alice, chess]. j \<noteq> 0 \<longrightarrow> zs ! j = [alice, chess] ! j) \<and>
      (\<forall>p. p \<noteq> usersPath \<longrightarrow> files w' p = files (disk [chess] [alice, chess]) p)) \<and>
   (\<exists>zs w'. delete_user (disk [chess] [alice, chess]) ''a1b2c3'' =
        Inr (Response 200 (Message UserDeleted), w') \<and>
      files w' usersPath = Some (Serialized (JArr zs)) \<and>
      length zs = length [alice, chess] - 1 \<and>
      (\<forall>j<0. zs ! j = [alice, chess] ! j) \<and>
      (\<forall>j. 0 \<le> j \<and> j < length [alice, chess] - 1 \<longrightarrow> zs ! j = [alice, chess] ! Suc j) \<and>
      (\<forall>p. p \<noteq> usersPath \<longrightarrow> files w' p = files (disk [chess] [alice, chess]) p))"
    by (rule mp)
  from a b show ?thesis by (rule conjI)
qed

end
